theory Spec2Isabelle
  imports Main
begin

section \<open>The shared store of the battle subsystem\<close>

text \<open>
  The battle lobby (\<^verbatim>\<open>Battle.tsx\<close>) and the waiting room (\<^verbatim>\<open>BattleRoom.tsx\<close>) coordinate
  through two tables of a hosted database, \<^verbatim>\<open>battle_rooms\<close> and \<^verbatim>\<open>battle_participants\<close>.
  Timestamps are ISO strings in the source and are only ever read through
  \<^verbatim>\<open>new Date(s).getTime()\<close>; they are modelled by that value, an integer number of
  milliseconds. Columns that the modelled code neither reads nor writes (the participant's
  own id, the room's creation time) are left out.
\<close>

datatype battle_type = OneVOne | TwoVTwo | FFA

datatype room_status = Waiting | InProgress | Completed

record participant =
  battle_room_id :: string
  user_id :: string
  username :: string
  created_at :: int

record room_row =
  room_id :: string
  room_code :: string
  battle_type :: battle_type
  max_players :: int
  status :: room_status
  time_per_question :: int
  total_questions :: int
  subject :: string
  host_id :: string
  host_ping_requested_at :: "int option"
  last_ping_sender_id :: "string option"
  last_ping_sender_username :: "string option"
  countdown_initiated_at :: "int option"

text \<open>\<^verbatim>\<open>RoomData\<close>: a room row together with its embedded participant rows, as a select
  with \<^verbatim>\<open>battle_participants(...)\<close> returns it and as the query cache holds it.\<close>

record room_data =
  row :: room_row
  battle_participants :: "participant list"

record store =
  battle_rooms :: "room_row list"
  participant_rows :: "participant list"

text \<open>The five update objects that the waiting room sends to \<^verbatim>\<open>battle_rooms\<close>.\<close>

datatype room_update =
    SetInProgress
  | RevertToWaiting
  | SetHost string
  | InitiateCountdown int
  | PingHost int string string

fun apply_update :: "room_update \<Rightarrow> room_row \<Rightarrow> room_row" where
  "apply_update SetInProgress r = r\<lparr>status := InProgress, countdown_initiated_at := None\<rparr>"
| "apply_update RevertToWaiting r = r\<lparr>status := Waiting, countdown_initiated_at := None\<rparr>"
| "apply_update (SetHost u) r = r\<lparr>host_id := u\<rparr>"
| "apply_update (InitiateCountdown t) r =
     r\<lparr>countdown_initiated_at := Some t, host_ping_requested_at := None,
       last_ping_sender_id := None, last_ping_sender_username := None\<rparr>"
| "apply_update (PingHost t u n) r =
     r\<lparr>host_ping_requested_at := Some t, last_ping_sender_id := Some u,
       last_ping_sender_username := Some n\<rparr>"

text \<open>
  A request is one call of the database client. Every update in the source is filtered by
  \<^verbatim>\<open>.eq('id', roomId)\<close> and by nothing else; a participant is deleted by room id and user id.
\<close>

datatype request =
    InsertRoom room_row
  | DeleteRoom string
  | InsertParticipant participant
  | DeleteParticipant string string
  | UpdateRoom string room_update

fun exec :: "request \<Rightarrow> store \<Rightarrow> store" where
  "exec (InsertRoom r) s = s\<lparr>battle_rooms := battle_rooms s @ [r]\<rparr>"
| "exec (DeleteRoom rid) s = s\<lparr>battle_rooms := filter (\<lambda>r. room_id r \<noteq> rid) (battle_rooms s)\<rparr>"
| "exec (InsertParticipant p) s = s\<lparr>participant_rows := participant_rows s @ [p]\<rparr>"
| "exec (DeleteParticipant rid u) s =
     s\<lparr>participant_rows :=
         filter (\<lambda>p. \<not> (battle_room_id p = rid \<and> user_id p = u)) (participant_rows s)\<rparr>"
| "exec (UpdateRoom rid u) s =
     s\<lparr>battle_rooms := map (\<lambda>r. if room_id r = rid then apply_update u r else r) (battle_rooms s)\<rparr>"

text \<open>
  A call can fail in the store (the client then returns an error object instead of
  throwing). Each operation below lists the requests it issued, each with its outcome;
  only the successful ones change the store.
\<close>

fun commit :: "(request \<times> bool) list \<Rightarrow> store \<Rightarrow> store" where
  "commit [] s = s"
| "commit ((q, ok) # rs) s = commit rs (if ok then exec q s else s)"

definition participants_of :: "store \<Rightarrow> string \<Rightarrow> participant list" where
  "participants_of s rid = filter (\<lambda>p. battle_room_id p = rid) (participant_rows s)"

definition embed :: "store \<Rightarrow> room_row \<Rightarrow> room_data" where
  "embed s r = \<lparr>row = r, battle_participants = participants_of s (room_id r)\<rparr>"

text \<open>\<^verbatim>\<open>.single()\<close>: exactly one row, otherwise the error \<^verbatim>\<open>PGRST116\<close>.\<close>

fun single :: "'a list \<Rightarrow> 'a option" where
  "single [x] = Some x"
| "single _ = None"

section \<open>The countdown of the waiting room\<close>

definition initialCountdownDuration :: "battle_type \<Rightarrow> int" where
  "initialCountdownDuration bt = (if bt = OneVOne then 5 else 10)"

text \<open>
  \<^verbatim>\<open>timeElapsed = (now - start) / 1000\<close> and
  \<^verbatim>\<open>Math.max(0, duration - Math.floor(timeElapsed))\<close>: on integers of milliseconds the
  floor of the quotient is \<open>div\<close>, which rounds towards minus infinity as \<^verbatim>\<open>Math.floor\<close>
  does. Without a stored start the remaining time is the whole duration.
\<close>

definition calculatedTimeRemaining :: "room_data \<Rightarrow> int \<Rightarrow> int" where
  "calculatedTimeRemaining room now =
     (case countdown_initiated_at (row room) of
        None \<Rightarrow> initialCountdownDuration (battle_type (row room))
      | Some t \<Rightarrow> max 0 (initialCountdownDuration (battle_type (row room)) - (now - t) div 1000))"


text \<open>
  What an effect or a handler of the waiting room leaves behind: the requests it issued
  with their outcomes, the toasts it showed, and the local state it set.
\<close>

datatype notice =
    StartFailed
  | PlayerJoined string
  | PlayerLeft string
  | KickedFromRoom
  | HostTransferFailed
  | HostChanged string
  | LeftRoom
  | LeaveFailed
  | ParticipantRemoved
  | RemoveFailed
  | StartingBattle
  | ErrorStartingBattle
  | PingSent
  | ErrorPingingHost

record countdown_result =
  cd_countdown :: "int option"
  cd_timer :: bool
  cd_requests :: "(request \<times> bool) list"
  cd_toasts :: "notice list"

definition idle :: countdown_result where
  "idle = \<lparr>cd_countdown = None, cd_timer = False, cd_requests = [], cd_toasts = []\<rparr>"

text \<open>
  The effect that manages the countdown. It runs on the cached snapshot \<open>room\<close>; \<open>ok\<close> is
  the outcome of the update it may send. The previous value of the local countdown does
  not influence the result (both branches that test it set the same value) and the
  interval is always cleared on entry, so neither is an argument. \<open>cd_timer\<close> tells whether
  an interval runs afterwards.
\<close>

definition countdownEffect :: "room_data option \<Rightarrow> string \<Rightarrow> int \<Rightarrow> bool \<Rightarrow> countdown_result" where
  "countdownEffect room roomId now ok =
     (case room of
        None \<Rightarrow> idle
      | Some rm \<Rightarrow>
          if status (row rm) = InProgress then idle
          else
            let currentPlayers = int (length (battle_participants rm));
                isRoomFull = (currentPlayers = max_players (row rm));
                isWaitingStatus = (status (row rm) = Waiting);
                isCountdownInitiatedByDB = (countdown_initiated_at (row rm) \<noteq> None)
            in
              if isWaitingStatus \<and> (isRoomFull \<or> isCountdownInitiatedByDB) then
                let remaining = calculatedTimeRemaining rm now in
                  if remaining \<le> 0 then
                    \<lparr>cd_countdown = Some remaining, cd_timer = False,
                      cd_requests =
                        (if status (row rm) = Waiting
                         then [(UpdateRoom roomId SetInProgress, ok)] else []),
                      cd_toasts =
                        (if status (row rm) = Waiting \<and> \<not> ok then [StartFailed] else [])\<rparr>
                  else
                    \<lparr>cd_countdown = Some remaining, cd_timer = True,
                      cd_requests = [], cd_toasts = []\<rparr>
              else idle)"

text \<open>One tick of the interval: \<open>prev\<close> is the local countdown, \<open>cached\<close> the room in the
  query cache at that moment.\<close>

definition countdownTick :: "int option \<Rightarrow> room_data option \<Rightarrow> string \<Rightarrow> bool \<Rightarrow> countdown_result" where
  "countdownTick prev cached roomId ok =
     (case prev of
        None \<Rightarrow> idle
      | Some p \<Rightarrow>
          if map_option (\<lambda>c. status (row c)) cached = Some InProgress then idle
          else if p \<le> 1 then
            \<lparr>cd_countdown = Some 0, cd_timer = False,
              cd_requests =
                (if map_option (\<lambda>c. status (row c)) cached = Some Waiting
                 then [(UpdateRoom roomId SetInProgress, ok)] else []),
              cd_toasts =
                (if map_option (\<lambda>c. status (row c)) cached = Some Waiting \<and> \<not> ok
                 then [StartFailed] else [])\<rparr>
          else
            \<lparr>cd_countdown = Some (p - 1), cd_timer = True, cd_requests = [], cd_toasts = []\<rparr>)"

text \<open>
  The local countdown is a dependency of the effect, so the effect and the interval take
  turns on a client that keeps the same snapshot: the effect runs and, when it has started
  an interval, the tick fires a second later on the countdown the effect has set; the tick
  changes the countdown, which runs the effect again. \<open>countdownRounds n\<close> lists the requests
  of \<open>n\<close> such turns.
\<close>

fun countdownRounds :: "nat \<Rightarrow> room_data option \<Rightarrow> string \<Rightarrow> int \<Rightarrow> bool \<Rightarrow> (request \<times> bool) list" where
  "countdownRounds 0 room roomId now ok = []"
| "countdownRounds (Suc n) room roomId now ok =
     cd_requests (countdownEffect room roomId now ok)
       @ (if cd_timer (countdownEffect room roomId now ok)
          then cd_requests
                 (countdownTick (cd_countdown (countdownEffect room roomId now ok)) room roomId ok)
          else [])
       @ countdownRounds n room roomId (now + 1000) ok"

section \<open>Presence: join, leave and kick notices\<close>

record presence_result =
  pr_toasts :: "notice list"
  pr_prevCount :: "nat option"
  pr_onLeave :: bool

text \<open>
  The effect that diffs participant snapshots and detects a kick. \<open>prevCount\<close> is
  \<^verbatim>\<open>prevParticipantsCount.current\<close>, \<open>cached\<close> the room in the query cache, \<open>pr_onLeave\<close>
  tells whether \<^verbatim>\<open>onLeave()\<close> was called, which returns the page to the lobby.
\<close>

definition presenceEffect ::
  "room_data option \<Rightarrow> string \<Rightarrow> bool \<Rightarrow> nat option \<Rightarrow> room_data option \<Rightarrow> presence_result" where
  "presenceEffect room userId isLeaving prevCount cached =
     (case room of
        None \<Rightarrow> \<lparr>pr_toasts = [], pr_prevCount = prevCount, pr_onLeave = False\<rparr>
      | Some rm \<Rightarrow>
          let currentPlayers = length (battle_participants rm);
              isHost = (host_id (row rm) = userId);
              oldParticipants = (case cached of None \<Rightarrow> [] | Some c \<Rightarrow> battle_participants c);
              diff =
                (case prevCount of
                   None \<Rightarrow> []
                 | Some n \<Rightarrow>
                     if n \<noteq> currentPlayers then
                       if currentPlayers > n then
                         (case find (\<lambda>p. \<not> list_ex (\<lambda>op. user_id op = user_id p) oldParticipants)
                                 (battle_participants rm) of
                            Some p \<Rightarrow> [PlayerJoined (username p)]
                          | None \<Rightarrow> [])
                       else if currentPlayers < n then
                         (case find (\<lambda>p. \<not> list_ex (\<lambda>np. user_id np = user_id p)
                                           (battle_participants rm))
                                 oldParticipants of
                            Some p \<Rightarrow> [PlayerLeft (username p)]
                          | None \<Rightarrow> [])
                       else []
                     else []);
              currentUserIsParticipant = list_ex (\<lambda>p. user_id p = userId) (battle_participants rm);
              kicked = (\<not> currentUserIsParticipant \<and> \<not> isHost \<and> \<not> isLeaving)
          in \<lparr>pr_toasts = diff @ (if kicked then [KickedFromRoom] else []),
               pr_prevCount = Some currentPlayers,
               pr_onLeave = kicked\<rparr>)"

section \<open>Leaving, host transfer and removal\<close>

text \<open>
  The part of \<^verbatim>\<open>leaveRoomMutation.onSuccess\<close> that hands the host role over. JavaScript's
  \<^verbatim>\<open>sort\<close> is stable, as \<open>sort_key\<close> is; the comparator orders by the join timestamp.
\<close>

definition remainingParticipants :: "room_data \<Rightarrow> string \<Rightarrow> participant list" where
  "remainingParticipants room userId = filter (\<lambda>p. user_id p \<noteq> userId) (battle_participants room)"

definition hostTransfer ::
  "room_data option \<Rightarrow> string \<Rightarrow> string \<Rightarrow> bool \<Rightarrow> (request \<times> bool) list \<times> notice list" where
  "hostTransfer room roomId userId host_ok =
     (case room of
        None \<Rightarrow> ([], [])
      | Some rm \<Rightarrow>
          if host_id (row rm) = userId then
            if length (remainingParticipants rm userId) > 0 then
              let newHost = hd (sort_key created_at (remainingParticipants rm userId)) in
                ([(UpdateRoom roomId (SetHost (user_id newHost)), host_ok)],
                 [if host_ok then HostChanged (username newHost) else HostTransferFailed])
            else ([], [])
          else ([], []))"

text \<open>The compensating write shared by leaving and removing: \<open>updatedRoom\<close> is the room in the
  query cache, which is assumed to still count the departing participant.\<close>

definition revertToWaiting :: "room_data option \<Rightarrow> string \<Rightarrow> bool \<Rightarrow> (request \<times> bool) list" where
  "revertToWaiting updatedRoom roomId revert_ok =
     (case updatedRoom of
        None \<Rightarrow> []
      | Some u \<Rightarrow>
          if status (row u) = InProgress
             \<and> int (length (battle_participants u)) \<le> max_players (row u) then
            let newParticipantCount = int (length (battle_participants u)) - 1 in
              if newParticipantCount < max_players (row u)
              then [(UpdateRoom roomId RevertToWaiting, revert_ok)] else []
          else [])"

record leave_result =
  lv_requests :: "(request \<times> bool) list"
  lv_toasts :: "notice list"
  lv_isLeaving :: bool
  lv_onLeave :: bool

text \<open>
  \<^verbatim>\<open>leaveRoomMutation\<close>: \<^verbatim>\<open>setIsLeaving(true)\<close> comes first, so the flag is set while the
  mutation is in flight; \<open>lv_isLeaving\<close> is its value when the mutation has settled.
\<close>

definition leaveRoomMutation ::
  "room_data option \<Rightarrow> room_data option \<Rightarrow> string \<Rightarrow> string \<Rightarrow> bool \<Rightarrow> bool \<Rightarrow> bool \<Rightarrow> leave_result" where
  "leaveRoomMutation room updatedRoom roomId userId del_ok host_ok revert_ok =
     (if \<not> del_ok then
        \<lparr>lv_requests = [(DeleteParticipant roomId userId, False)], lv_toasts = [LeaveFailed],
          lv_isLeaving = False, lv_onLeave = False\<rparr>
      else
        \<lparr>lv_requests =
            (DeleteParticipant roomId userId, True)
              # fst (hostTransfer room roomId userId host_ok)
              @ revertToWaiting updatedRoom roomId revert_ok,
          lv_toasts = snd (hostTransfer room roomId userId host_ok) @ [LeftRoom],
          lv_isLeaving = True, lv_onLeave = True\<rparr>)"

datatype error =
    UserNotAuthenticated
  | RoomNotFoundOrStarted
  | RoomIsFull
  | SupabaseError
  | OnlyHostCanRemove
  | CannotRemoveYourself
  | OnlyHostCanStart
  | OnlyFFAManualStart
  | OnlyFromWaiting
  | InvalidPing
  | PingOnlyFFA
  | PingAfterStart

record mutation_result =
  mr_error :: "error option"
  mr_requests :: "(request \<times> bool) list"
  mr_toasts :: "notice list"

definition rejected :: "error \<Rightarrow> notice \<Rightarrow> mutation_result" where
  "rejected e n = \<lparr>mr_error = Some e, mr_requests = [], mr_toasts = [n]\<rparr>"

definition removeParticipantMutation ::
  "room_data option \<Rightarrow> room_data option \<Rightarrow> string \<Rightarrow> string \<Rightarrow> string \<Rightarrow> bool \<Rightarrow> bool \<Rightarrow> mutation_result" where
  "removeParticipantMutation room updatedRoom roomId userId participantUserId del_ok revert_ok =
     (case room of
        None \<Rightarrow> rejected OnlyHostCanRemove RemoveFailed
      | Some rm \<Rightarrow>
          if host_id (row rm) \<noteq> userId then rejected OnlyHostCanRemove RemoveFailed
          else if participantUserId = userId then rejected CannotRemoveYourself RemoveFailed
          else if \<not> del_ok then
            \<lparr>mr_error = Some SupabaseError,
              mr_requests = [(DeleteParticipant roomId participantUserId, False)],
              mr_toasts = [RemoveFailed]\<rparr>
          else
            \<lparr>mr_error = None,
              mr_requests =
                (DeleteParticipant roomId participantUserId, True)
                  # revertToWaiting updatedRoom roomId revert_ok,
              mr_toasts = [ParticipantRemoved]\<rparr>)"

section \<open>Manual start and ping\<close>

definition startBattleMutation ::
  "room_data option \<Rightarrow> string \<Rightarrow> string \<Rightarrow> int \<Rightarrow> bool \<Rightarrow> mutation_result" where
  "startBattleMutation room roomId userId now ok =
     (case room of
        None \<Rightarrow> rejected OnlyHostCanStart ErrorStartingBattle
      | Some rm \<Rightarrow>
          if host_id (row rm) \<noteq> userId then rejected OnlyHostCanStart ErrorStartingBattle
          else if battle_type (row rm) \<noteq> FFA then rejected OnlyFFAManualStart ErrorStartingBattle
          else if status (row rm) \<noteq> Waiting then rejected OnlyFromWaiting ErrorStartingBattle
          else if \<not> ok then
            \<lparr>mr_error = Some SupabaseError,
              mr_requests = [(UpdateRoom roomId (InitiateCountdown now), False)],
              mr_toasts = [ErrorStartingBattle]\<rparr>
          else
            \<lparr>mr_error = None,
              mr_requests = [(UpdateRoom roomId (InitiateCountdown now), True)],
              mr_toasts = [StartingBattle]\<rparr>)"

text \<open>The render guard of the button that calls \<^verbatim>\<open>startBattleMutation.mutate()\<close>, and its
  \<^verbatim>\<open>disabled\<close> attribute.\<close>

definition startButtonRendered :: "room_data \<Rightarrow> string \<Rightarrow> bool" where
  "startButtonRendered room userId =
     (host_id (row room) = userId \<and> battle_type (row room) = FFA \<and> status (row room) = Waiting
      \<and> length (battle_participants room) > 1 \<and> \<not> (countdown_initiated_at (row room) \<noteq> None))"

definition startButtonDisabled :: "room_data \<Rightarrow> bool \<Rightarrow> bool" where
  "startButtonDisabled room isPending = (isPending \<or> length (battle_participants room) < 2)"

text \<open>
  The button is the only caller of the mutation. A click reaches the mutation when the
  button is rendered for the room the component holds and is not disabled; otherwise there
  is nothing to click and nothing happens.
\<close>

definition startButtonClick ::
  "room_data \<Rightarrow> string \<Rightarrow> string \<Rightarrow> int \<Rightarrow> bool \<Rightarrow> bool \<Rightarrow> mutation_result option" where
  "startButtonClick room roomId userId now isPending ok =
     (if startButtonRendered room userId \<and> \<not> startButtonDisabled room isPending
      then Some (startBattleMutation (Some room) roomId userId now ok)
      else None)"

definition pingHostMutation ::
  "room_data option \<Rightarrow> string \<Rightarrow> string \<Rightarrow> int \<Rightarrow> bool \<Rightarrow> mutation_result" where
  "pingHostMutation room roomId userId now ok =
     (case room of
        None \<Rightarrow> rejected InvalidPing ErrorPingingHost
      | Some rm \<Rightarrow>
          if host_id (row rm) = userId then rejected InvalidPing ErrorPingingHost
          else if battle_type (row rm) \<noteq> FFA then rejected PingOnlyFFA ErrorPingingHost
          else if status (row rm) \<noteq> Waiting then rejected PingAfterStart ErrorPingingHost
          else
            let senderUsername =
                  (case find (\<lambda>p. user_id p = userId) (battle_participants rm) of
                     Some p \<Rightarrow> (if username p \<noteq> [] then username p else ''A participant'')
                   | None \<Rightarrow> ''A participant'')
            in
              \<lparr>mr_error = (if ok then None else Some SupabaseError),
                mr_requests = [(UpdateRoom roomId (PingHost now userId senderUsername), ok)],
                mr_toasts = [if ok then PingSent else ErrorPingingHost]\<rparr>)"


section \<open>The lobby: creating and joining a room\<close>

record auth_user =
  auth_id :: string
  metadata_username :: "string option"
  email :: "string option"

text \<open>\<^verbatim>\<open>user.user_metadata?.username || user.email || 'Guest'\<close>: an absent or empty string
  is falsy.\<close>

definition username_of :: "auth_user \<Rightarrow> string" where
  "username_of u =
     (case metadata_username u of
        Some n \<Rightarrow> if n \<noteq> [] then n
                  else (case email u of Some e \<Rightarrow> if e \<noteq> [] then e else ''Guest'' | None \<Rightarrow> ''Guest'')
      | None \<Rightarrow> (case email u of Some e \<Rightarrow> if e \<noteq> [] then e else ''Guest'' | None \<Rightarrow> ''Guest''))"

text \<open>\<^verbatim>\<open>toUpperCase\<close> on the letters a to z; room codes are base-36 digits.\<close>

definition upper_char :: "char \<Rightarrow> char" where
  "upper_char c =
     (if (97::nat) \<le> of_char c \<and> of_char c \<le> (122::nat) then char_of (of_char c - (32::nat)) else c)"

definition toUpperCase :: "string \<Rightarrow> string" where
  "toUpperCase = map upper_char"

record battle_settings =
  battleType :: battle_type
  timePerQuestion :: int
  totalQuestions :: int
  settings_subject :: string

definition maxPlayers :: "battle_type \<Rightarrow> int" where
  "maxPlayers bt = (if bt = OneVOne then 2 else if bt = TwoVTwo then 4 else if bt = FFA then 100 else 4)"

record 'a lobby_result =
  lb_result :: "error + 'a"
  lb_requests :: "(request \<times> bool) list"

text \<open>
  \<^verbatim>\<open>createRoomMutation\<close>. The random room code and the id that the database gives the
  new row are arguments; columns absent from the insert are null. The outcome of the
  roll-back delete is not looked at by the source.
\<close>

definition createRoomMutation ::
  "auth_user option \<Rightarrow> battle_settings \<Rightarrow> string \<Rightarrow> string \<Rightarrow> int \<Rightarrow> bool \<Rightarrow> bool \<Rightarrow> bool
     \<Rightarrow> room_row lobby_result" where
  "createRoomMutation user settings roomCode newId now room_ok participant_ok delete_ok =
     (case user of
        None \<Rightarrow> \<lparr>lb_result = Inl UserNotAuthenticated, lb_requests = []\<rparr>
      | Some u \<Rightarrow>
          let newRoom =
                \<lparr>room_id = newId, room_code = roomCode, battle_type = battleType settings,
                  max_players = maxPlayers (battleType settings), status = Waiting,
                  time_per_question = timePerQuestion settings,
                  total_questions = totalQuestions settings,
                  subject = settings_subject settings, host_id = auth_id u,
                  host_ping_requested_at = None, last_ping_sender_id = None,
                  last_ping_sender_username = None, countdown_initiated_at = None\<rparr>;
              creator =
                \<lparr>battle_room_id = newId, user_id = auth_id u, username = username_of u,
                  created_at = now\<rparr>
          in
            if \<not> room_ok then
              \<lparr>lb_result = Inl SupabaseError, lb_requests = [(InsertRoom newRoom, False)]\<rparr>
            else if \<not> participant_ok then
              \<lparr>lb_result = Inl SupabaseError,
                lb_requests =
                  [(InsertRoom newRoom, True), (InsertParticipant creator, False),
                   (DeleteRoom newId, delete_ok)]\<rparr>
            else
              \<lparr>lb_result = Inr newRoom,
                lb_requests = [(InsertRoom newRoom, True), (InsertParticipant creator, True)]\<rparr>)"

text \<open>
  \<^verbatim>\<open>joinRoomByCodeMutation\<close>, run against the store \<open>s\<close> that its select reads. \<open>select_ok\<close>
  and \<open>insert_ok\<close> are the outcomes of the two calls as far as the store's availability goes;
  a select that does not find exactly one waiting room with the code is the error
  \<^verbatim>\<open>PGRST116\<close>.
\<close>

definition joinRoomByCodeMutation ::
  "auth_user option \<Rightarrow> string \<Rightarrow> int \<Rightarrow> bool \<Rightarrow> bool \<Rightarrow> store \<Rightarrow> room_data lobby_result" where
  "joinRoomByCodeMutation user roomCode now select_ok insert_ok s =
     (case user of
        None \<Rightarrow> \<lparr>lb_result = Inl UserNotAuthenticated, lb_requests = []\<rparr>
      | Some u \<Rightarrow>
          if \<not> select_ok then \<lparr>lb_result = Inl SupabaseError, lb_requests = []\<rparr>
          else
            (case single (filter (\<lambda>r. room_code r = toUpperCase roomCode \<and> status r = Waiting)
                            (battle_rooms s)) of
               None \<Rightarrow> \<lparr>lb_result = Inl RoomNotFoundOrStarted, lb_requests = []\<rparr>
             | Some r \<Rightarrow>
                 let room = embed s r in
                   if int (length (battle_participants room)) \<ge> max_players (row room) then
                     \<lparr>lb_result = Inl RoomIsFull, lb_requests = []\<rparr>
                   else if list_ex (\<lambda>p. user_id p = auth_id u) (battle_participants room) then
                     \<lparr>lb_result = Inr room, lb_requests = []\<rparr>
                   else
                     let joiner =
                           \<lparr>battle_room_id = room_id (row room), user_id = auth_id u,
                             username = username_of u, created_at = now\<rparr>
                     in
                       if \<not> insert_ok then
                         \<lparr>lb_result = Inl SupabaseError,
                           lb_requests = [(InsertParticipant joiner, False)]\<rparr>
                       else
                         \<lparr>lb_result = Inr room,
                           lb_requests = [(InsertParticipant joiner, True)]\<rparr>))"

section \<open>Sequences of operations on the store\<close>

text \<open>
  An operation of some client, with everything it depends on besides the store: who acts,
  the snapshots the waiting room works from, and the outcomes of the calls. A join reads
  the store itself; the operations of the waiting room work from the cached room, which
  need not be the stored one. \<open>step\<close> runs one operation to its end: the requests it issues
  are committed before the next operation reads the store.
\<close>

datatype operation =
    Join "auth_user option" string int bool bool
  | Leave "room_data option" "room_data option" string string bool bool bool
  | Remove "room_data option" "room_data option" string string string bool bool
  | Countdown "room_data option" string int bool
  | Tick "int option" "room_data option" string bool
  | Start "room_data option" string string int bool
  | Ping "room_data option" string string int bool

fun requests_of :: "operation \<Rightarrow> store \<Rightarrow> (request \<times> bool) list" where
  "requests_of (Join user code now sel ins) s =
     lb_requests (joinRoomByCodeMutation user code now sel ins s)"
| "requests_of (Leave room updatedRoom roomId userId d h r) s =
     lv_requests (leaveRoomMutation room updatedRoom roomId userId d h r)"
| "requests_of (Remove room updatedRoom roomId userId target d r) s =
     mr_requests (removeParticipantMutation room updatedRoom roomId userId target d r)"
| "requests_of (Countdown room roomId now ok) s = cd_requests (countdownEffect room roomId now ok)"
| "requests_of (Tick prev cached roomId ok) s = cd_requests (countdownTick prev cached roomId ok)"
| "requests_of (Start room roomId userId now ok) s =
     mr_requests (startBattleMutation room roomId userId now ok)"
| "requests_of (Ping room roomId userId now ok) s =
     mr_requests (pingHostMutation room roomId userId now ok)"

definition step :: "operation \<Rightarrow> store \<Rightarrow> store" where
  "step operation s = commit (requests_of operation s) s"

text \<open>\<open>run\<close> is the execution of operations one at a time, none overlapping another.\<close>

fun run :: "operation list \<Rightarrow> store \<Rightarrow> store" where
  "run [] s = s"
| "run (operation # ops) s = run ops (step operation s)"

text \<open>
  Operations of different clients overlap, because every call of the database client is
  awaited. \<open>Begin\<close> is the moment an operation decides on its requests: a join's select is
  served by the store as it is then, the waiting room works from its snapshot. \<open>Land i\<close> is
  the moment the next request of the \<open>i\<close>-th operation begun reaches the store. Between
  the two, requests of other operations may land.
\<close>

record system =
  stored :: store
  in_flight :: "(request \<times> bool) list list"

datatype event = Begin operation | Land nat

fun occur :: "event \<Rightarrow> system \<Rightarrow> system" where
  "occur (Begin operation) c =
     \<lparr>stored = stored c, in_flight = in_flight c @ [requests_of operation (stored c)]\<rparr>"
| "occur (Land i) c =
     (if i < length (in_flight c) then
        (case in_flight c ! i of
           [] \<Rightarrow> c
         | (q, ok) # rest \<Rightarrow>
             \<lparr>stored = (if ok then exec q (stored c) else stored c),
               in_flight = (in_flight c)[i := rest]\<rparr>)
      else c)"

fun interleaving :: "event list \<Rightarrow> system \<Rightarrow> system" where
  "interleaving [] c = c"
| "interleaving (e # es) c = interleaving es (occur e c)"

text \<open>The schedule in which the operations run one at a time: no operation issues more
  than three requests, and \<open>k\<close> operations have begun before.\<close>

fun serial :: "nat \<Rightarrow> operation list \<Rightarrow> event list" where
  "serial k [] = []"
| "serial k (operation # ops) = Begin operation # Land k # Land k # Land k # serial (Suc k) ops"

definition within_capacity :: "store \<Rightarrow> bool" where
  "within_capacity s =
     list_all (\<lambda>r. int (length (participants_of s (room_id r))) \<le> max_players r) (battle_rooms s)"

text \<open>
  An insert lands in a free place when every room row it is for still has fewer
  participants than \<open>max_players\<close> at the moment it lands; \<open>free_places\<close> asks this of every
  successful insert along a schedule.
\<close>

fun free_place :: "event \<Rightarrow> system \<Rightarrow> bool" where
  "free_place (Begin operation) c = True"
| "free_place (Land i) c =
     (if i < length (in_flight c) then
        (case in_flight c ! i of
           (InsertParticipant p, True) # rest \<Rightarrow>
             list_all
               (\<lambda>r. room_id r = battle_room_id p
                    \<longrightarrow> int (length (participants_of (stored c) (room_id r))) < max_players r)
               (battle_rooms (stored c))
         | _ \<Rightarrow> True)
      else True)"

fun free_places :: "event list \<Rightarrow> system \<Rightarrow> bool" where
  "free_places [] c = True"
| "free_places (e # es) c = (free_place e c \<and> free_places es (occur e c))"



text \<open>The earliest-joined among some participants.\<close>

definition earliest :: "participant list \<Rightarrow> participant \<Rightarrow> bool" where
  "earliest ps p = list_all (\<lambda>q. created_at p \<le> created_at q) ps"


section \<open>Example data\<close>

definition duel :: room_row where
  "duel =
     \<lparr>room_id = ''r1'', room_code = ''AB12CD'', battle_type = OneVOne, max_players = 2,
       status = Waiting, time_per_question = 15, total_questions = 10, subject = ''Biology'',
       host_id = ''alice'', host_ping_requested_at = None, last_ping_sender_id = None,
       last_ping_sender_username = None, countdown_initiated_at = None\<rparr>"

definition arena :: room_row where
  "arena = duel\<lparr>battle_type := FFA, max_players := 100\<rparr>"

definition alice :: participant where
  "alice = \<lparr>battle_room_id = ''r1'', user_id = ''alice'', username = ''Alice'', created_at = 1000\<rparr>"

definition bob :: participant where
  "bob = \<lparr>battle_room_id = ''r1'', user_id = ''bob'', username = ''Bob'', created_at = 2000\<rparr>"

definition alice_user :: auth_user where
  "alice_user = \<lparr>auth_id = ''alice'', metadata_username = Some ''Alice'', email = None\<rparr>"

definition bob_user :: auth_user where
  "bob_user = \<lparr>auth_id = ''bob'', metadata_username = Some ''Bob'', email = None\<rparr>"

definition carol_user :: auth_user where
  "carol_user = \<lparr>auth_id = ''carol'', metadata_username = Some ''Carol'', email = None\<rparr>"

definition duel_settings :: battle_settings where
  "duel_settings =
     \<lparr>battleType = OneVOne, timePerQuestion = 15, totalQuestions = 10,
       settings_subject = ''Biology''\<rparr>"

definition carol :: participant where
  "carol = \<lparr>battle_room_id = ''r1'', user_id = ''carol'', username = ''Carol'', created_at = 2000\<rparr>"

section \<open>Facts about the store\<close>

lemma battle_rooms_exec_update:
  "battle_rooms (exec (UpdateRoom rid u) s)
     = map (\<lambda>r. if room_id r = rid then apply_update u r else r) (battle_rooms s)"
  by simp

lemma room_id_apply_update: "room_id (apply_update u r) = room_id r"
  by (cases u) simp_all

lemma exec_SetInProgress_rows:
  assumes "r \<in> set (battle_rooms (exec (UpdateRoom roomId SetInProgress) s))"
    and "room_id r = roomId"
  shows "status r = InProgress \<and> countdown_initiated_at r = None"
proof -
  from assms(1) obtain x where x: "x \<in> set (battle_rooms s)"
    and r: "r = (if room_id x = roomId then apply_update SetInProgress x else x)"
    unfolding battle_rooms_exec_update by auto
  show ?thesis
  proof (cases "room_id x = roomId")
    case True
    with r show ?thesis by simp
  next
    case False
    with r assms(2) show ?thesis by simp
  qed
qed

lemma map_update_idem:
  "map (\<lambda>r. if room_id r = rid then apply_update SetInProgress r else r)
     (map (\<lambda>r. if room_id r = rid then apply_update SetInProgress r else r) rs)
   = map (\<lambda>r. if room_id r = rid then apply_update SetInProgress r else r) rs"
  by (induction rs) auto

lemma exec_SetInProgress_idem:
  "exec (UpdateRoom roomId SetInProgress) (exec (UpdateRoom roomId SetInProgress) s)
     = exec (UpdateRoom roomId SetInProgress) s"
  by (simp add: map_update_idem del: map_map)

lemma countdownEffect_requests:
  "cd_requests (countdownEffect room roomId now ok) = [] \<or>
   (cd_requests (countdownEffect room roomId now ok) = [(UpdateRoom roomId SetInProgress, ok)]
    \<and> (\<exists>rm. room = Some rm \<and> status (row rm) = Waiting))"
proof (cases room)
  case None
  then show ?thesis by (simp add: countdownEffect_def idle_def)
next
  case (Some rm)
  then show ?thesis by (simp add: countdownEffect_def idle_def Let_def)
qed

lemma countdownTick_requests:
  "cd_requests (countdownTick prev cached roomId ok) = [] \<or>
   (cd_requests (countdownTick prev cached roomId ok) = [(UpdateRoom roomId SetInProgress, ok)]
    \<and> (\<exists>c. cached = Some c \<and> status (row c) = Waiting))"
proof (cases prev)
  case None
  then show ?thesis by (simp add: countdownTick_def idle_def)
next
  case (Some p)
  then show ?thesis by (cases cached) (simp_all add: countdownTick_def idle_def)
qed

section \<open>The countdown\<close>

lemma div_shift: "(a + 1000 * d) div 1000 = a div 1000 + (d::int)"
  by simp

text \<open>
  Claim C6, as amended. The remaining time is the duration minus the whole seconds
  elapsed since the stored start, but never less than zero. Two computations whose clocks
  differ by \<open>d\<close> whole seconds give values that differ by at most \<open>d\<close>, and by exactly \<open>d\<close>
  as long as the later one has not been cut off at zero.
\<close>

theorem remaining_time_difference:
  assumes "countdown_initiated_at (row room) = Some t" and "0 \<le> d"
  shows "calculatedTimeRemaining room now
           = max 0 (initialCountdownDuration (battle_type (row room)) - (now - t) div 1000)
       \<and> 0 \<le> calculatedTimeRemaining room now - calculatedTimeRemaining room (now + 1000 * d)
       \<and> calculatedTimeRemaining room now - calculatedTimeRemaining room (now + 1000 * d) \<le> d
       \<and> ((now + 1000 * d - t) div 1000 \<le> initialCountdownDuration (battle_type (row room))
            \<longrightarrow> calculatedTimeRemaining room now - calculatedTimeRemaining room (now + 1000 * d) = d)"
proof -
  have "(now + 1000 * d - t) div 1000 = (now - t) div 1000 + d"
    using div_shift [of "now - t" d] by (simp add: algebra_simps)
  with assms show ?thesis
    by (auto simp: calculatedTimeRemaining_def)
qed

text \<open>A one-on-one room whose countdown started at time 0: one second in, four seconds
  remain; three seconds in, two.\<close>

theorem remaining_time_difference_witness:
  "calculatedTimeRemaining
     \<lparr>row = duel\<lparr>countdown_initiated_at := Some 0\<rparr>, battle_participants = []\<rparr> 1000
   - calculatedTimeRemaining
       \<lparr>row = duel\<lparr>countdown_initiated_at := Some 0\<rparr>, battle_participants = []\<rparr> 3000 = 2"
  using remaining_time_difference
    [of "\<lparr>row = duel\<lparr>countdown_initiated_at := Some 0\<rparr>, battle_participants = []\<rparr>" 0 2 1000]
  by (simp add: initialCountdownDuration_def duel_def)

text \<open>Claim C6 as stated fails once the countdown has run out: ten and twenty seconds
  after the start of a five-second countdown the remaining time is zero both times, so the
  two values do not differ by ten.\<close>

theorem remaining_time_clamped_counterexample:
  "calculatedTimeRemaining
     \<lparr>row = duel\<lparr>countdown_initiated_at := Some 0\<rparr>, battle_participants = []\<rparr> 10000
   - calculatedTimeRemaining
       \<lparr>row = duel\<lparr>countdown_initiated_at := Some 0\<rparr>, battle_participants = []\<rparr> 20000
   \<noteq> 10"
  by (simp add: calculatedTimeRemaining_def initialCountdownDuration_def duel_def)

lemma countdownEffect_sends:
  "cd_requests (countdownEffect room roomId now ok) =
     (if \<exists>rm. room = Some rm \<and> status (row rm) = Waiting
            \<and> (int (length (battle_participants rm)) = max_players (row rm)
                 \<or> countdown_initiated_at (row rm) \<noteq> None)
            \<and> calculatedTimeRemaining rm now \<le> 0
      then [(UpdateRoom roomId SetInProgress, ok)] else [])"
proof (cases room)
  case None
  then show ?thesis by (simp add: countdownEffect_def idle_def)
next
  case (Some rm)
  then show ?thesis by (simp add: countdownEffect_def idle_def Let_def)
qed

lemma countdownTick_sends:
  "cd_requests (countdownTick prev cached roomId ok) =
     (if \<exists>p c. prev = Some p \<and> p \<le> 1 \<and> cached = Some c \<and> status (row c) = Waiting
      then [(UpdateRoom roomId SetInProgress, ok)] else [])"
proof (cases prev)
  case None
  then show ?thesis by (simp add: countdownTick_def idle_def)
next
  case (Some p)
  then show ?thesis by (cases cached) (simp_all add: countdownTick_def idle_def)
qed

text \<open>
  Claim C1, as amended. The update that moves a room to \<open>in_progress\<close> is sent exactly when
  the client's own snapshot of the room says \<open>waiting\<close> and its countdown has run out: by the
  effect when the snapshot is at capacity or carries a countdown start and the remaining
  time computed from it is zero, by the interval when the local countdown is at most one.
  The update itself is filtered by the room id alone: it sets every stored row with that id
  to \<open>in_progress\<close> with a cleared countdown start, whatever the row held, and sending it
  again leaves the store as the first update left it.
\<close>

theorem transition_guarded_by_snapshot:
  "cd_requests (countdownEffect room roomId now ok) =
     (if \<exists>rm. room = Some rm \<and> status (row rm) = Waiting
            \<and> (int (length (battle_participants rm)) = max_players (row rm)
                 \<or> countdown_initiated_at (row rm) \<noteq> None)
            \<and> calculatedTimeRemaining rm now \<le> 0
      then [(UpdateRoom roomId SetInProgress, ok)] else [])
   \<and> cd_requests (countdownTick prev cached roomId ok) =
       (if \<exists>p c. prev = Some p \<and> p \<le> 1 \<and> cached = Some c \<and> status (row c) = Waiting
        then [(UpdateRoom roomId SetInProgress, ok)] else [])
   \<and> (\<forall>r \<in> set (battle_rooms (exec (UpdateRoom roomId SetInProgress) s)).
         room_id r = roomId \<longrightarrow> status r = InProgress \<and> countdown_initiated_at r = None)
   \<and> exec (UpdateRoom roomId SetInProgress) (exec (UpdateRoom roomId SetInProgress) s)
        = exec (UpdateRoom roomId SetInProgress) s"
  using countdownEffect_sends [of room roomId now ok]
    countdownTick_sends [of prev cached roomId ok]
    exec_SetInProgress_rows [of _ roomId s] exec_SetInProgress_idem [of roomId s]
  by blast

text \<open>A free-for-all whose host started the countdown at time 0, seen from the effect
  eleven and three seconds later, and from the interval at its last and at an earlier
  tick.\<close>

theorem transition_guarded_by_snapshot_witness:
  "cd_requests
     (countdownEffect
        (Some \<lparr>row = arena\<lparr>countdown_initiated_at := Some 0\<rparr>, battle_participants = [alice, bob]\<rparr>)
        ''r1'' 11000 True) = [(UpdateRoom ''r1'' SetInProgress, True)]
   \<and> cd_requests
       (countdownEffect
          (Some \<lparr>row = arena\<lparr>countdown_initiated_at := Some 0\<rparr>, battle_participants = [alice, bob]\<rparr>)
          ''r1'' 3000 True) = []
   \<and> cd_requests
       (countdownTick (Some 1) (Some \<lparr>row = arena, battle_participants = [alice, bob]\<rparr>) ''r1'' True)
      = [(UpdateRoom ''r1'' SetInProgress, True)]
   \<and> cd_requests
       (countdownTick (Some 2) (Some \<lparr>row = arena, battle_participants = [alice, bob]\<rparr>) ''r1'' True)
      = []
   \<and> status (hd (battle_rooms (exec (UpdateRoom ''r1'' SetInProgress)
        \<lparr>battle_rooms = [arena], participant_rows = [alice, bob]\<rparr>))) = InProgress"
proof -
  let ?rm = "\<lparr>row = arena\<lparr>countdown_initiated_at := Some 0\<rparr>, battle_participants = [alice, bob]\<rparr>"
  let ?c = "\<lparr>row = arena, battle_participants = [alice, bob]\<rparr>"
  let ?s = "\<lparr>battle_rooms = [arena], participant_rows = [alice, bob]\<rparr>"
  have a: "\<exists>rm. Some ?rm = Some rm \<and> status (row rm) = Waiting
            \<and> (int (length (battle_participants rm)) = max_players (row rm)
                 \<or> countdown_initiated_at (row rm) \<noteq> None)
            \<and> calculatedTimeRemaining rm 11000 \<le> 0"
    by (simp add: calculatedTimeRemaining_def initialCountdownDuration_def arena_def duel_def)
  have a': "\<not> (\<exists>rm. Some ?rm = Some rm \<and> status (row rm) = Waiting
            \<and> (int (length (battle_participants rm)) = max_players (row rm)
                 \<or> countdown_initiated_at (row rm) \<noteq> None)
            \<and> calculatedTimeRemaining rm 3000 \<le> 0)"
    by (simp add: calculatedTimeRemaining_def initialCountdownDuration_def arena_def duel_def)
  have b: "\<exists>p c. Some (1::int) = Some p \<and> p \<le> 1 \<and> Some ?c = Some c \<and> status (row c) = Waiting"
    by (simp add: arena_def duel_def)
  have b': "\<not> (\<exists>p c. Some (2::int) = Some p \<and> p \<le> 1 \<and> Some ?c = Some c \<and> status (row c) = Waiting)"
    by simp
  have c: "hd (battle_rooms (exec (UpdateRoom ''r1'' SetInProgress) ?s))
             \<in> set (battle_rooms (exec (UpdateRoom ''r1'' SetInProgress) ?s))"
    by simp
  have d: "room_id (hd (battle_rooms (exec (UpdateRoom ''r1'' SetInProgress) ?s))) = ''r1''"
    by (simp add: arena_def duel_def)
  from transition_guarded_by_snapshot [of "Some ?rm" "''r1''" 11000 True "Some 1" "Some ?c" ?s]
    transition_guarded_by_snapshot [of "Some ?rm" "''r1''" 3000 True "Some 2" "Some ?c" ?s]
    a a' b b' c d
  show ?thesis by (simp only: if_True if_False)
qed

text \<open>Claim C1 as stated fails: the write is not conditioned on the stored status. The
  countdown of a free-for-all has run out on a client whose snapshot still says \<open>waiting\<close>;
  it sends the update although the stored row is already \<open>completed\<close>, and the stored
  status changes to \<open>in_progress\<close>.\<close>

theorem transition_write_ignores_stored_status_counterexample:
  "commit
     (cd_requests
        (countdownEffect
           (Some \<lparr>row = arena\<lparr>countdown_initiated_at := Some 0\<rparr>, battle_participants = [alice, bob]\<rparr>)
           ''r1'' 11000 True))
     \<lparr>battle_rooms = [arena\<lparr>status := Completed, countdown_initiated_at := Some 0\<rparr>],
        participant_rows = [alice, bob]\<rparr>
   = \<lparr>battle_rooms = [arena\<lparr>status := InProgress\<rparr>], participant_rows = [alice, bob]\<rparr>"
  by (simp add: countdownEffect_def calculatedTimeRemaining_def initialCountdownDuration_def
      arena_def duel_def alice_def bob_def)

lemma full_room_effect:
  assumes "status (row rm) = Waiting"
    and "int (length (battle_participants rm)) = max_players (row rm)"
    and "countdown_initiated_at (row rm) = None"
  shows "countdownEffect (Some rm) roomId now ok =
           \<lparr>cd_countdown = Some (initialCountdownDuration (battle_type (row rm))), cd_timer = True,
             cd_requests = [], cd_toasts = []\<rparr>"
  using assms
  by (simp add: countdownEffect_def calculatedTimeRemaining_def initialCountdownDuration_def)

lemma full_room_tick:
  assumes "status (row rm) = Waiting"
  shows "countdownTick (Some (initialCountdownDuration (battle_type (row rm)))) (Some rm) roomId ok =
           \<lparr>cd_countdown = Some (initialCountdownDuration (battle_type (row rm)) - 1), cd_timer = True,
             cd_requests = [], cd_toasts = []\<rparr>"
  using assms by (simp add: countdownTick_def initialCountdownDuration_def)

lemma full_room_rounds:
  assumes "status (row rm) = Waiting"
    and "int (length (battle_participants rm)) = max_players (row rm)"
    and "countdown_initiated_at (row rm) = None"
  shows "countdownRounds n (Some rm) roomId now ok = []"
proof (induction n arbitrary: now)
  case 0
  show ?case by simp
next
  case (Suc n)
  show ?case
    by (simp add: full_room_effect [OF assms] full_room_tick [OF assms(1)] Suc.IH)
qed

lemma stored_start_elapses:
  assumes "status (row rm) = Waiting" and "countdown_initiated_at (row rm) = Some t"
    and "t + 1000 * initialCountdownDuration (battle_type (row rm)) \<le> now"
  shows "cd_requests (countdownEffect (Some rm) roomId now ok) = [(UpdateRoom roomId SetInProgress, ok)]"
proof -
  from assms(3) have "initialCountdownDuration (battle_type (row rm)) \<le> (now - t) div 1000"
    by linarith
  then have "calculatedTimeRemaining rm now \<le> 0"
    using assms(2) by (simp add: calculatedTimeRemaining_def)
  with assms(1,2) show ?thesis
    by (simp add: countdownEffect_sends)
qed

text \<open>
  Claim C4 is not met by the code. On a waiting room at capacity without a stored countdown
  start, the effect sends nothing and sets the local countdown to the whole duration of
  the battle type, at every time it runs; the tick that follows takes one second off and
  sends nothing; and since the tick's change of the countdown runs the effect again, no
  number of turns of the two ever sends a request: the countdown start is never stored
  and the room is never moved to \<open>in_progress\<close>. A room whose countdown start is stored, as
  the manual start stores it, is moved on as soon as the duration has passed.
\<close>

theorem full_room_countdown_never_elapses:
  assumes "status (row rm) = Waiting"
    and "int (length (battle_participants rm)) = max_players (row rm)"
    and "countdown_initiated_at (row rm) = None"
  shows "countdownEffect (Some rm) roomId now ok =
           \<lparr>cd_countdown = Some (initialCountdownDuration (battle_type (row rm))), cd_timer = True,
             cd_requests = [], cd_toasts = []\<rparr>
       \<and> countdownTick (Some (initialCountdownDuration (battle_type (row rm)))) (Some rm) roomId ok =
           \<lparr>cd_countdown = Some (initialCountdownDuration (battle_type (row rm)) - 1), cd_timer = True,
             cd_requests = [], cd_toasts = []\<rparr>
       \<and> countdownRounds n (Some rm) roomId now ok = []
       \<and> commit (countdownRounds n (Some rm) roomId now ok) s = s
       \<and> (status (row started) = Waiting \<and> countdown_initiated_at (row started) = Some t
            \<and> t + 1000 * initialCountdownDuration (battle_type (row started)) \<le> later
            \<longrightarrow> cd_requests (countdownEffect (Some started) roomId later ok)
                = [(UpdateRoom roomId SetInProgress, ok)])"
proof (intro conjI impI)
  show "countdownEffect (Some rm) roomId now ok =
           \<lparr>cd_countdown = Some (initialCountdownDuration (battle_type (row rm))), cd_timer = True,
             cd_requests = [], cd_toasts = []\<rparr>"
    by (rule full_room_effect [OF assms])
  show "countdownTick (Some (initialCountdownDuration (battle_type (row rm)))) (Some rm) roomId ok =
           \<lparr>cd_countdown = Some (initialCountdownDuration (battle_type (row rm)) - 1), cd_timer = True,
             cd_requests = [], cd_toasts = []\<rparr>"
    by (rule full_room_tick [OF assms(1)])
  show "countdownRounds n (Some rm) roomId now ok = []"
    by (rule full_room_rounds [OF assms])
  then show "commit (countdownRounds n (Some rm) roomId now ok) s = s"
    by simp
next
  assume "status (row started) = Waiting \<and> countdown_initiated_at (row started) = Some t
            \<and> t + 1000 * initialCountdownDuration (battle_type (row started)) \<le> later"
  then show "cd_requests (countdownEffect (Some started) roomId later ok)
                = [(UpdateRoom roomId SetInProgress, ok)]"
    using stored_start_elapses [of started t later roomId ok] by blast
qed

text \<open>Bob has just filled Alice's one-on-one room: after seven turns of effect and tick
  nothing has been sent and the store is as it was. In a free-for-all whose host stored the
  start at second seven, the effect sends the transition at second seventeen.\<close>

theorem full_room_countdown_never_elapses_witness:
  "countdownRounds 7 (Some \<lparr>row = duel, battle_participants = [alice, bob]\<rparr>) ''r1'' 5000 True = []
   \<and> commit (countdownRounds 7 (Some \<lparr>row = duel, battle_participants = [alice, bob]\<rparr>) ''r1'' 5000 True)
       \<lparr>battle_rooms = [duel], participant_rows = [alice, bob]\<rparr>
     = \<lparr>battle_rooms = [duel], participant_rows = [alice, bob]\<rparr>
   \<and> countdownEffect (Some \<lparr>row = duel, battle_participants = [alice, bob]\<rparr>) ''r1'' 9000 True =
       \<lparr>cd_countdown = Some 5, cd_timer = True, cd_requests = [], cd_toasts = []\<rparr>
   \<and> cd_requests
       (countdownEffect
          (Some \<lparr>row = arena\<lparr>countdown_initiated_at := Some 7000\<rparr>, battle_participants = [alice, bob]\<rparr>)
          ''r1'' 17000 True)
     = [(UpdateRoom ''r1'' SetInProgress, True)]"
proof -
  let ?rm = "\<lparr>row = duel, battle_participants = [alice, bob]\<rparr>"
  let ?started = "\<lparr>row = arena\<lparr>countdown_initiated_at := Some 7000\<rparr>, battle_participants = [alice, bob]\<rparr>"
  have a: "status (row ?rm) = Waiting" "int (length (battle_participants ?rm)) = max_players (row ?rm)"
    "countdown_initiated_at (row ?rm) = None"
    by (simp_all add: duel_def)
  have d: "initialCountdownDuration (battle_type (row ?rm)) = 5"
    by (simp add: initialCountdownDuration_def duel_def)
  have l: "status (row ?started) = Waiting \<and> countdown_initiated_at (row ?started) = Some 7000
           \<and> 7000 + 1000 * initialCountdownDuration (battle_type (row ?started)) \<le> 17000"
    by (simp add: initialCountdownDuration_def arena_def duel_def)
  from full_room_countdown_never_elapses [OF a, of "''r1''" 5000 True 7
      "\<lparr>battle_rooms = [duel], participant_rows = [alice, bob]\<rparr>" ?started 7000 17000]
    full_room_countdown_never_elapses [OF a, of "''r1''" 9000 True 7
      "\<lparr>battle_rooms = [duel], participant_rows = [alice, bob]\<rparr>" ?started 7000 17000] l
  show ?thesis unfolding d by blast
qed

section \<open>Host transfer\<close>

lemma find_filter_hd:
  "find P xs = (case filter P xs of [] \<Rightarrow> None | x # _ \<Rightarrow> Some x)"
  by (induction xs) auto

lemma earliest_iff: "earliest ps p \<longleftrightarrow> (\<forall>q \<in> set ps. created_at p \<le> created_at q)"
  by (simp add: earliest_def list_all_iff)

lemma hd_sort_key_least:
  assumes "ps \<noteq> []"
  shows "hd (sort_key created_at ps) \<in> set ps \<and> earliest ps (hd (sort_key created_at ps))"
proof -
  let ?ss = "sort_key created_at ps"
  from assms have ne: "?ss \<noteq> []"
    by (metis length_0_conv length_sort)
  then obtain nh rest where ss: "?ss = nh # rest"
    by (cases ?ss) auto
  have "sorted (map created_at ?ss)"
    by (rule sorted_sort_key)
  with ss have "\<forall>q \<in> set ?ss. created_at nh \<le> created_at q"
    by auto
  then have "\<forall>q \<in> set ps. created_at nh \<le> created_at q"
    by simp
  moreover have "nh \<in> set ps"
    using ss by (metis list.set_intros(1) set_sort)
  ultimately show ?thesis
    using ss by (simp add: earliest_iff)
qed

lemma find_earliest:
  assumes "ps \<noteq> []"
  shows "find (earliest ps) ps = Some (hd (sort_key created_at ps))"
proof -
  let ?ss = "sort_key created_at ps"
  let ?nh = "hd ?ss"
  let ?m = "created_at ?nh"
  from hd_sort_key_least [OF assms] have nh: "?nh \<in> set ps" and least: "earliest ps ?nh"
    by simp_all
  have same: "filter (earliest ps) ps = filter (\<lambda>y. created_at y = ?m) ps"
  proof (rule filter_cong [OF refl])
    fix p assume "p \<in> set ps"
    with nh least show "earliest ps p = (created_at p = ?m)"
      by (auto simp: earliest_iff intro: antisym)
  qed
  from assms have "?ss \<noteq> []"
    by (metis length_0_conv length_sort)
  then obtain rest where ss: "?ss = ?nh # rest"
    by (cases ?ss) auto
  have "filter (\<lambda>y. created_at y = ?m) ps = filter (\<lambda>y. created_at y = ?m) ?ss"
    by (simp add: sort_key_stable)
  also have "\<dots> = ?nh # filter (\<lambda>y. created_at y = ?m) rest"
    by (subst ss) simp
  finally show ?thesis
    by (simp add: find_filter_hd same)
qed


lemma hostTransfer_remaining:
  assumes "host_id (row rm) = userId" and "remainingParticipants rm userId \<noteq> []"
  shows "hostTransfer (Some rm) roomId userId ok =
           ([(UpdateRoom roomId
                (SetHost (user_id (hd (sort_key created_at (remainingParticipants rm userId))))), ok)],
            [if ok then HostChanged (username (hd (sort_key created_at (remainingParticipants rm userId))))
             else HostTransferFailed])"
  using assms by (simp add: hostTransfer_def Let_def)

lemma hostTransfer_alone:
  assumes "remainingParticipants rm userId = []"
  shows "hostTransfer (Some rm) roomId userId ok = ([], [])"
  using assms by (simp add: hostTransfer_def)

lemma revertToWaiting_cases:
  "revertToWaiting upd roomId rok = []
   \<or> revertToWaiting upd roomId rok = [(UpdateRoom roomId RevertToWaiting, rok)]"
  by (cases upd) (simp_all add: revertToWaiting_def Let_def)

lemma battle_rooms_exec_participant:
  "battle_rooms (exec (DeleteParticipant rid u) s) = battle_rooms s"
  "battle_rooms (exec (InsertParticipant p) s) = battle_rooms s"
  by simp_all

lemma battle_rooms_commit_revert:
  "map host_id (battle_rooms (commit (revertToWaiting upd roomId rok) s)) = map host_id (battle_rooms s)
   \<and> map room_id (battle_rooms (commit (revertToWaiting upd roomId rok) s)) = map room_id (battle_rooms s)"
proof -
  have "map host_id (map (\<lambda>r. if room_id r = roomId then apply_update RevertToWaiting r else r) rs)
          = map host_id rs
      \<and> map room_id (map (\<lambda>r. if room_id r = roomId then apply_update RevertToWaiting r else r) rs)
          = map room_id rs" for rs
    by (induction rs) auto
  then show ?thesis
    using revertToWaiting_cases [of upd roomId rok]
    by (cases rok) (auto simp del: map_map)
qed

lemma host_after_SetHost:
  assumes "r \<in> set (battle_rooms (exec (UpdateRoom roomId (SetHost u)) s))" and "room_id r = roomId"
  shows "host_id r = u"
proof -
  from assms(1) have "r \<in> (\<lambda>x. if room_id x = roomId then apply_update (SetHost u) x else x)
                          ` set (battle_rooms s)"
    unfolding battle_rooms_exec_update set_map .
  then obtain x where r: "r = (if room_id x = roomId then apply_update (SetHost u) x else x)"
    by (rule imageE)
  show ?thesis
  proof (cases "room_id x = roomId")
    case True
    with r show ?thesis by simp
  next
    case False
    with r assms(2) show ?thesis by simp
  qed
qed

lemma zip_ids_hosts:
  assumes "map host_id rs' = map host_id rs" and "map room_id rs' = map room_id rs"
    and "\<forall>r \<in> set rs. room_id r = rid \<longrightarrow> host_id r = u"
    and "r \<in> set rs'" and "room_id r = rid"
  shows "host_id r = u"
proof -
  from assms(4) obtain i where i: "i < length rs'" "rs' ! i = r"
    by (auto simp: in_set_conv_nth)
  from assms(1) have len: "length rs' = length rs"
    by (metis length_map)
  from i len have "host_id (rs ! i) = host_id r" "room_id (rs ! i) = room_id r"
    using assms(1,2) by (metis nth_map)+
  with assms(3,5) i len show ?thesis
    by (metis nth_mem)
qed

lemma host_after_leave:
  assumes "r \<in> set (battle_rooms (commit ((DeleteParticipant roomId userId, True)
              # (UpdateRoom roomId (SetHost u), True) # revertToWaiting upd roomId rok) s))"
    and "room_id r = roomId"
  shows "host_id r = u"
proof -
  let ?s1 = "exec (UpdateRoom roomId (SetHost u)) (exec (DeleteParticipant roomId userId) s)"
  have c: "commit ((DeleteParticipant roomId userId, True)
              # (UpdateRoom roomId (SetHost u), True) # revertToWaiting upd roomId rok) s
           = commit (revertToWaiting upd roomId rok) ?s1"
    by simp
  have "\<forall>r \<in> set (battle_rooms ?s1). room_id r = roomId \<longrightarrow> host_id r = u"
    using host_after_SetHost by blast
  with battle_rooms_commit_revert [of upd roomId rok ?s1] assms show ?thesis
    unfolding c by (blast intro: zip_ids_hosts)
qed


lemma earliest_cong: "set ps = set qs \<Longrightarrow> earliest ps p = earliest qs p"
  by (simp add: earliest_iff)

lemma set_remainingParticipants:
  "set (remainingParticipants rm userId) = {p \<in> set (battle_participants rm). user_id p \<noteq> userId}"
  by (simp add: remainingParticipants_def)

lemma hostTransfer_order:
  assumes row: "row rm' = row rm"
    and same: "set (battle_participants rm') = set (battle_participants rm)"
    and uniq: "\<forall>p \<in> set (remainingParticipants rm userId).
                 \<forall>q \<in> set (remainingParticipants rm userId).
                   earliest (remainingParticipants rm userId) p
                   \<and> earliest (remainingParticipants rm userId) q \<longrightarrow> p = q"
  shows "hostTransfer (Some rm') roomId userId ok = hostTransfer (Some rm) roomId userId ok"
proof -
  let ?R = "remainingParticipants rm userId" and ?R' = "remainingParticipants rm' userId"
  from same have sets: "set ?R' = set ?R"
    by (simp add: set_remainingParticipants)
  show ?thesis
  proof (cases "?R = []")
    case True
    with sets have "?R' = []" by simp
    with True show ?thesis by (simp add: hostTransfer_alone)
  next
    case False
    with sets have ne': "?R' \<noteq> []" by auto
    have a: "hd (sort_key created_at ?R) \<in> set ?R \<and> earliest ?R (hd (sort_key created_at ?R))"
      using hd_sort_key_least [OF False] .
    have "hd (sort_key created_at ?R') \<in> set ?R' \<and> earliest ?R' (hd (sort_key created_at ?R'))"
      using hd_sort_key_least [OF ne'] .
    with sets have b: "hd (sort_key created_at ?R') \<in> set ?R
        \<and> earliest ?R (hd (sort_key created_at ?R'))"
      using earliest_cong [OF sets] by simp
    from a b uniq have eq: "hd (sort_key created_at ?R') = hd (sort_key created_at ?R)"
      by blast
    show ?thesis
      using row False ne' eq by (simp add: hostTransfer_def Let_def)
  qed
qed

text \<open>
  Claim C3, as amended. When the host's own delete has succeeded and the host's snapshot
  shows other participants, the leaving client sends one host update; it names a remaining
  participant whose join timestamp is the earliest, namely the first such participant in
  the order of the snapshot, and when that update succeeds the stored host is that
  participant. When the snapshot shows nobody else, no host update is among the requests.
  The choice does not depend on the order of the snapshot when only one remaining
  participant has the earliest timestamp.
\<close>

theorem host_transfer_earliest:
  assumes "host_id (row rm) = userId"
  shows
    "(remainingParticipants rm userId \<noteq> [] \<longrightarrow>
        (\<exists>nh \<in> set (remainingParticipants rm userId).
            earliest (remainingParticipants rm userId) nh
          \<and> find (earliest (remainingParticipants rm userId)) (remainingParticipants rm userId) = Some nh
          \<and> lv_requests (leaveRoomMutation (Some rm) upd roomId userId True ok rok)
              = (DeleteParticipant roomId userId, True)
                  # (UpdateRoom roomId (SetHost (user_id nh)), ok) # revertToWaiting upd roomId rok
          \<and> (ok \<longrightarrow>
               (\<forall>r \<in> set (battle_rooms
                            (commit (lv_requests (leaveRoomMutation (Some rm) upd roomId userId True ok rok)) s)).
                  room_id r = roomId \<longrightarrow> host_id r = user_id nh))))
   \<and> (remainingParticipants rm userId = [] \<longrightarrow>
        lv_requests (leaveRoomMutation (Some rm) upd roomId userId True ok rok)
          = (DeleteParticipant roomId userId, True) # revertToWaiting upd roomId rok
        \<and> (\<forall>u b. (UpdateRoom roomId (SetHost u), b)
               \<notin> set (lv_requests (leaveRoomMutation (Some rm) upd roomId userId True ok rok))))
   \<and> (\<forall>rm'. row rm' = row rm \<and> set (battle_participants rm') = set (battle_participants rm)
          \<and> (\<forall>p \<in> set (remainingParticipants rm userId).
                \<forall>q \<in> set (remainingParticipants rm userId).
                  earliest (remainingParticipants rm userId) p
                  \<and> earliest (remainingParticipants rm userId) q \<longrightarrow> p = q)
        \<longrightarrow> hostTransfer (Some rm') roomId userId ok = hostTransfer (Some rm) roomId userId ok)"
proof (intro conjI impI allI)
  assume ne: "remainingParticipants rm userId \<noteq> []"
  let ?R = "remainingParticipants rm userId"
  let ?nh = "hd (sort_key created_at ?R)"
  have reqs: "lv_requests (leaveRoomMutation (Some rm) upd roomId userId True ok rok)
      = (DeleteParticipant roomId userId, True)
          # (UpdateRoom roomId (SetHost (user_id ?nh)), ok) # revertToWaiting upd roomId rok"
    by (simp add: leaveRoomMutation_def hostTransfer_remaining [OF assms ne])
  have "ok \<longrightarrow>
         (\<forall>r \<in> set (battle_rooms
                      (commit (lv_requests (leaveRoomMutation (Some rm) upd roomId userId True ok rok)) s)).
            room_id r = roomId \<longrightarrow> host_id r = user_id ?nh)"
  proof
    assume ok
    with reqs have reqs': "lv_requests (leaveRoomMutation (Some rm) upd roomId userId True ok rok)
      = (DeleteParticipant roomId userId, True)
          # (UpdateRoom roomId (SetHost (user_id ?nh)), True) # revertToWaiting upd roomId rok"
      by simp
    show "\<forall>r \<in> set (battle_rooms
                      (commit (lv_requests (leaveRoomMutation (Some rm) upd roomId userId True ok rok)) s)).
            room_id r = roomId \<longrightarrow> host_id r = user_id ?nh"
      unfolding reqs' using host_after_leave by blast
  qed
  with hd_sort_key_least [OF ne] find_earliest [OF ne] reqs
  show "\<exists>nh \<in> set ?R.
            earliest ?R nh \<and> find (earliest ?R) ?R = Some nh
          \<and> lv_requests (leaveRoomMutation (Some rm) upd roomId userId True ok rok)
              = (DeleteParticipant roomId userId, True)
                  # (UpdateRoom roomId (SetHost (user_id nh)), ok) # revertToWaiting upd roomId rok
          \<and> (ok \<longrightarrow>
               (\<forall>r \<in> set (battle_rooms
                            (commit (lv_requests (leaveRoomMutation (Some rm) upd roomId userId True ok rok)) s)).
                  room_id r = roomId \<longrightarrow> host_id r = user_id nh))"
    by blast
next
  assume e: "remainingParticipants rm userId = []"
  show reqs: "lv_requests (leaveRoomMutation (Some rm) upd roomId userId True ok rok)
          = (DeleteParticipant roomId userId, True) # revertToWaiting upd roomId rok"
    by (simp add: leaveRoomMutation_def hostTransfer_alone [OF e])
  fix u b
  show "(UpdateRoom roomId (SetHost u), b)
               \<notin> set (lv_requests (leaveRoomMutation (Some rm) upd roomId userId True ok rok))"
    unfolding reqs using revertToWaiting_cases [of upd roomId rok] by auto
next
  fix rm' :: room_data
  assume "row rm' = row rm \<and> set (battle_participants rm') = set (battle_participants rm)
          \<and> (\<forall>p \<in> set (remainingParticipants rm userId).
                \<forall>q \<in> set (remainingParticipants rm userId).
                  earliest (remainingParticipants rm userId) p
                  \<and> earliest (remainingParticipants rm userId) q \<longrightarrow> p = q)"
  then show "hostTransfer (Some rm') roomId userId ok = hostTransfer (Some rm) roomId userId ok"
    using hostTransfer_order by blast
qed

text \<open>Alice hosts a free-for-all and leaves while Bob is in the room: the host update
  names Bob.\<close>

theorem host_transfer_earliest_witness:
  "lv_requests
     (leaveRoomMutation (Some \<lparr>row = arena, battle_participants = [alice, bob]\<rparr>) None
        ''r1'' ''alice'' True True True)
   = [(DeleteParticipant ''r1'' ''alice'', True), (UpdateRoom ''r1'' (SetHost ''bob''), True)]"
proof -
  let ?rm = "\<lparr>row = arena, battle_participants = [alice, bob]\<rparr>"
  have h: "host_id (row ?rm) = ''alice''"
    by (simp add: arena_def duel_def)
  have r: "remainingParticipants ?rm ''alice'' = [bob]"
    by (simp add: remainingParticipants_def alice_def bob_def)
  have u: "user_id bob = ''bob''"
    by (simp add: bob_def)
  from host_transfer_earliest [OF h, of None "''r1''" True True
      "\<lparr>battle_rooms = [arena], participant_rows = [alice, bob]\<rparr>"]
  show ?thesis
    unfolding r by (simp add: u revertToWaiting_def)
qed

text \<open>Claim C3 as stated fails on a tie: Bob and Carol joined at the same millisecond, and
  the new host is whichever of the two comes first in the leaving host's snapshot.\<close>

theorem host_choice_depends_on_order_counterexample:
  "fst (hostTransfer (Some \<lparr>row = arena, battle_participants = [alice, bob, carol]\<rparr>) ''r1'' ''alice'' True)
     = [(UpdateRoom ''r1'' (SetHost ''bob''), True)]
   \<and> fst (hostTransfer (Some \<lparr>row = arena, battle_participants = [alice, carol, bob]\<rparr>) ''r1'' ''alice'' True)
     = [(UpdateRoom ''r1'' (SetHost ''carol''), True)]"
  by (simp add: hostTransfer_def remainingParticipants_def arena_def duel_def alice_def bob_def
      carol_def)

section \<open>Manual start\<close>

lemma startButtonClick_result:
  "startButtonClick room roomId userId now isPending ok =
     (if startButtonRendered room userId \<and> \<not> isPending
      then Some \<lparr>mr_error = (if ok then None else Some SupabaseError),
                  mr_requests = [(UpdateRoom roomId (InitiateCountdown now), ok)],
                  mr_toasts = [if ok then StartingBattle else ErrorStartingBattle]\<rparr>
      else None)"
proof (cases "startButtonRendered room userId")
  case False
  then show ?thesis by (simp add: startButtonClick_def)
next
  case True
  then have g: "host_id (row room) = userId" "battle_type (row room) = FFA"
    "status (row room) = Waiting" "length (battle_participants room) > 1"
    by (simp_all add: startButtonRendered_def)
  from g(4) have "startButtonDisabled room isPending = isPending"
    by (auto simp: startButtonDisabled_def)
  with True g(1-3) show ?thesis
    by (simp add: startButtonClick_def startBattleMutation_def)
qed

text \<open>
  Claim C8, as amended. The Start button is the only way to the mutation, and a click
  sends a request exactly when the button is rendered for the client's snapshot and no
  start is pending: the snapshot then shows a free-for-all room in status \<open>waiting\<close>, hosted
  by the acting user, with more than one participant and no countdown initiated. The
  mutation itself rejects, with an error and without any request, a snapshot in which the
  acting user is not the host, the room is not a free-for-all or the status is not
  \<open>waiting\<close>; it does not look at the number of participants. All of these are tests of the
  client's snapshot, not of the stored rows. A start that succeeds sets the stored
  countdown start to the current time and clears the ping fields.
\<close>

theorem manual_start_guards:
  "((\<forall>rm. room = Some rm \<longrightarrow>
          host_id (row rm) \<noteq> userId \<or> battle_type (row rm) \<noteq> FFA \<or> status (row rm) \<noteq> Waiting)
     \<longrightarrow> mr_error (startBattleMutation room roomId userId now ok) \<noteq> None
         \<and> mr_requests (startBattleMutation room roomId userId now ok) = [])
   \<and> (room = Some rm \<and> host_id (row rm) = userId \<and> battle_type (row rm) = FFA
        \<and> status (row rm) = Waiting
     \<longrightarrow> startBattleMutation room roomId userId now True
           = \<lparr>mr_error = None, mr_requests = [(UpdateRoom roomId (InitiateCountdown now), True)],
              mr_toasts = [StartingBattle]\<rparr>
         \<and> (\<forall>r \<in> set (battle_rooms
                        (commit (mr_requests (startBattleMutation room roomId userId now True)) s)).
               room_id r = roomId \<longrightarrow> countdown_initiated_at r = Some now))
   \<and> (startButtonRendered rm userId
     \<longrightarrow> length (battle_participants rm) > 1 \<and> host_id (row rm) = userId
         \<and> battle_type (row rm) = FFA \<and> status (row rm) = Waiting
         \<and> countdown_initiated_at (row rm) = None)
   \<and> startButtonClick rm roomId userId now isPending ok =
       (if startButtonRendered rm userId \<and> \<not> isPending
        then Some \<lparr>mr_error = (if ok then None else Some SupabaseError),
                    mr_requests = [(UpdateRoom roomId (InitiateCountdown now), ok)],
                    mr_toasts = [if ok then StartingBattle else ErrorStartingBattle]\<rparr>
        else None)"
proof (intro conjI impI)
  assume "\<forall>rm. room = Some rm \<longrightarrow>
          host_id (row rm) \<noteq> userId \<or> battle_type (row rm) \<noteq> FFA \<or> status (row rm) \<noteq> Waiting"
  then show "mr_error (startBattleMutation room roomId userId now ok) \<noteq> None"
    and "mr_requests (startBattleMutation room roomId userId now ok) = []"
    by (cases room; auto simp: startBattleMutation_def rejected_def)+
next
  assume a: "room = Some rm \<and> host_id (row rm) = userId \<and> battle_type (row rm) = FFA
        \<and> status (row rm) = Waiting"
  then show res: "startBattleMutation room roomId userId now True
           = \<lparr>mr_error = None, mr_requests = [(UpdateRoom roomId (InitiateCountdown now), True)],
              mr_toasts = [StartingBattle]\<rparr>"
    by (simp add: startBattleMutation_def)
  show "\<forall>r \<in> set (battle_rooms
                        (commit (mr_requests (startBattleMutation room roomId userId now True)) s)).
               room_id r = roomId \<longrightarrow> countdown_initiated_at r = Some now"
  proof (intro ballI impI)
    fix r
    assume "r \<in> set (battle_rooms
                        (commit (mr_requests (startBattleMutation room roomId userId now True)) s))"
      and rid: "room_id r = roomId"
    then have "r \<in> (\<lambda>x. if room_id x = roomId then apply_update (InitiateCountdown now) x else x)
                          ` set (battle_rooms s)"
      unfolding res by simp
    then obtain x where r: "r = (if room_id x = roomId then apply_update (InitiateCountdown now) x else x)"
      by (rule imageE)
    show "countdown_initiated_at r = Some now"
    proof (cases "room_id x = roomId")
      case True
      with r show ?thesis by simp
    next
      case False
      with r rid show ?thesis by simp
    qed
  qed
next
  assume "startButtonRendered rm userId"
  then show "length (battle_participants rm) > 1" "host_id (row rm) = userId"
    "battle_type (row rm) = FFA" "status (row rm) = Waiting"
    "countdown_initiated_at (row rm) = None"
    by (simp_all add: startButtonRendered_def)
next
  show "startButtonClick rm roomId userId now isPending ok =
       (if startButtonRendered rm userId \<and> \<not> isPending
        then Some \<lparr>mr_error = (if ok then None else Some SupabaseError),
                    mr_requests = [(UpdateRoom roomId (InitiateCountdown now), ok)],
                    mr_toasts = [if ok then StartingBattle else ErrorStartingBattle]\<rparr>
        else None)"
    by (rule startButtonClick_result)
qed

text \<open>Alice starts her free-for-all with Bob in the room, by the button and by the mutation;
  Bob, who is not the host, is turned away by the mutation and has no button to click.\<close>

theorem manual_start_guards_witness:
  "startBattleMutation (Some \<lparr>row = arena, battle_participants = [alice, bob]\<rparr>) ''r1'' ''alice'' 7000 True
     = \<lparr>mr_error = None, mr_requests = [(UpdateRoom ''r1'' (InitiateCountdown 7000), True)],
        mr_toasts = [StartingBattle]\<rparr>
   \<and> mr_requests
       (startBattleMutation (Some \<lparr>row = arena, battle_participants = [alice, bob]\<rparr>) ''r1'' ''bob'' 7000 True)
      = []
   \<and> startButtonClick \<lparr>row = arena, battle_participants = [alice, bob]\<rparr> ''r1'' ''alice'' 7000 False True
      = Some \<lparr>mr_error = None, mr_requests = [(UpdateRoom ''r1'' (InitiateCountdown 7000), True)],
              mr_toasts = [StartingBattle]\<rparr>
   \<and> startButtonClick \<lparr>row = arena, battle_participants = [alice, bob]\<rparr> ''r1'' ''bob'' 7000 False True
      = None
   \<and> startButtonClick \<lparr>row = arena, battle_participants = [alice]\<rparr> ''r1'' ''alice'' 7000 False True
      = None"
proof -
  let ?rm = "\<lparr>row = arena, battle_participants = [alice, bob]\<rparr>"
  let ?one = "\<lparr>row = arena, battle_participants = [alice]\<rparr>"
  let ?s = "\<lparr>battle_rooms = [arena], participant_rows = [alice, bob]\<rparr>"
  have a: "Some ?rm = Some ?rm \<and> host_id (row ?rm) = ''alice'' \<and> battle_type (row ?rm) = FFA
        \<and> status (row ?rm) = Waiting"
    by (simp add: arena_def duel_def)
  have b: "\<forall>rm. Some ?rm = Some rm \<longrightarrow>
          host_id (row rm) \<noteq> ''bob'' \<or> battle_type (row rm) \<noteq> FFA \<or> status (row rm) \<noteq> Waiting"
    by (simp add: arena_def duel_def)
  have c: "startButtonRendered ?rm ''alice'' \<and> \<not> False"
    by (simp add: startButtonRendered_def arena_def duel_def)
  have d: "\<not> (startButtonRendered ?rm ''bob'' \<and> \<not> False)"
    by (simp add: startButtonRendered_def arena_def duel_def)
  have e: "\<not> (startButtonRendered ?one ''alice'' \<and> \<not> False)"
    by (simp add: startButtonRendered_def)
  from manual_start_guards [of "Some ?rm" "''alice''" "''r1''" 7000 True ?rm ?s False] a c
    manual_start_guards [of "Some ?rm" "''bob''" "''r1''" 7000 True ?rm ?s False] b d
    manual_start_guards [of "Some ?rm" "''alice''" "''r1''" 7000 True ?one ?s False] e
  show ?thesis by (simp only: if_True if_False simp_thms)
qed

text \<open>Claim C8 as stated fails on a snapshot that is behind the store: Bob has left, so
  the stored room has one participant, but Alice's client still shows the two of them and
  the button; her click stores the countdown start.\<close>

theorem manual_start_stale_snapshot_counterexample:
  "startButtonClick \<lparr>row = arena, battle_participants = [alice, bob]\<rparr> ''r1'' ''alice'' 7000 False True
     = Some \<lparr>mr_error = None, mr_requests = [(UpdateRoom ''r1'' (InitiateCountdown 7000), True)],
             mr_toasts = [StartingBattle]\<rparr>
   \<and> commit [(UpdateRoom ''r1'' (InitiateCountdown 7000), True)]
       \<lparr>battle_rooms = [arena], participant_rows = [alice]\<rparr>
     = \<lparr>battle_rooms = [arena\<lparr>countdown_initiated_at := Some 7000\<rparr>], participant_rows = [alice]\<rparr>"
  by (simp add: startButtonClick_def startButtonRendered_def startButtonDisabled_def
      startBattleMutation_def arena_def duel_def alice_def)

section \<open>Kicked or left\<close>

lemma joined_toast:
  "KickedFromRoom \<notin> set (case x of None \<Rightarrow> [] | Some p \<Rightarrow> [PlayerJoined (username p)])"
  by (cases x) simp_all

lemma left_toast:
  "KickedFromRoom \<notin> set (case x of None \<Rightarrow> [] | Some p \<Rightarrow> [PlayerLeft (username p)])"
  by (cases x) simp_all

lemma nested_toasts:
  assumes "KickedFromRoom \<notin> set A" and "KickedFromRoom \<notin> set B"
  shows "KickedFromRoom \<notin> set (if c1 then if c2 then A else if c3 then B else [] else [])"
  using assms by simp

lemma kicked_toast:
  assumes "KickedFromRoom \<notin> set A"
  shows "(KickedFromRoom \<in> set A \<or> KickedFromRoom \<in> set (if b then [KickedFromRoom] else [])) = b"
  using assms by simp

lemma presence_toasts:
  "KickedFromRoom \<in> set (pr_toasts (presenceEffect room userId isLeaving prevCount cached))
     \<longleftrightarrow> pr_onLeave (presenceEffect room userId isLeaving prevCount cached)"
proof (cases room)
  case None
  then show ?thesis by (simp add: presenceEffect_def)
next
  case room: (Some rm)
  show ?thesis
  proof (cases prevCount)
    case None
    with room show ?thesis by (simp add: presenceEffect_def Let_def)
  next
    case (Some n)
    show ?thesis
      unfolding presenceEffect_def Let_def room Some option.case presence_result.select_convs
        set_append Un_iff
      by (rule kicked_toast [OF nested_toasts [OF joined_toast left_toast]])
  qed
qed

lemma presence_onLeave:
  "pr_onLeave (presenceEffect room userId isLeaving prevCount cached)
     \<longleftrightarrow> (\<exists>rm. room = Some rm \<and> \<not> list_ex (\<lambda>p. user_id p = userId) (battle_participants rm)
              \<and> host_id (row rm) \<noteq> userId \<and> \<not> isLeaving)"
  by (cases room) (simp_all add: presenceEffect_def Let_def)

lemma hostTransfer_toasts: "KickedFromRoom \<notin> set (snd (hostTransfer room roomId userId ok))"
  by (cases room) (simp_all add: hostTransfer_def Let_def)

text \<open>
  Claim C9, as amended. A client that is not the host of its snapshot, whose user is absent
  from the snapshot's participants and that has not started to leave, shows the kicked
  notice and returns to the lobby. A client that is the host of its snapshot never does,
  even when its participant row is gone. While a leave of its own is under way the client
  never shows the kicked notice, and a leave whose delete succeeded returns to the lobby
  with the notice that the user has left.
\<close>

theorem kick_detection:
  "(\<not> list_ex (\<lambda>p. user_id p = userId) (battle_participants rm) \<and> host_id (row rm) \<noteq> userId
      \<longrightarrow> pr_onLeave (presenceEffect (Some rm) userId False prevCount cached)
          \<and> KickedFromRoom \<in> set (pr_toasts (presenceEffect (Some rm) userId False prevCount cached)))
   \<and> (host_id (row rm) = userId
      \<longrightarrow> \<not> pr_onLeave (presenceEffect (Some rm) userId isLeaving prevCount cached)
          \<and> KickedFromRoom \<notin> set (pr_toasts (presenceEffect (Some rm) userId isLeaving prevCount cached)))
   \<and> \<not> pr_onLeave (presenceEffect room userId True prevCount cached)
   \<and> KickedFromRoom \<notin> set (pr_toasts (presenceEffect room userId True prevCount cached))
   \<and> lv_isLeaving (leaveRoomMutation room updatedRoom roomId userId True host_ok revert_ok)
   \<and> lv_onLeave (leaveRoomMutation room updatedRoom roomId userId True host_ok revert_ok)
   \<and> LeftRoom \<in> set (lv_toasts (leaveRoomMutation room updatedRoom roomId userId True host_ok revert_ok))
   \<and> KickedFromRoom
        \<notin> set (lv_toasts (leaveRoomMutation room updatedRoom roomId userId True host_ok revert_ok))"
  using hostTransfer_toasts [of room roomId userId host_ok]
  by (simp add: presence_toasts presence_onLeave leaveRoomMutation_def)

text \<open>Alice has removed Bob from her room: Bob's client, which did not ask to leave, is
  sent back to the lobby with the kicked notice.\<close>

theorem kick_detection_witness:
  "presenceEffect (Some \<lparr>row = arena, battle_participants = [alice]\<rparr>) ''bob'' False None None
     = \<lparr>pr_toasts = [KickedFromRoom], pr_prevCount = Some 1, pr_onLeave = True\<rparr>
   \<and> \<not> pr_onLeave
         (presenceEffect (Some \<lparr>row = arena, battle_participants = [bob]\<rparr>) ''alice'' False None None)"
proof -
  let ?rm = "\<lparr>row = arena, battle_participants = [alice]\<rparr>"
  let ?rm2 = "\<lparr>row = arena, battle_participants = [bob]\<rparr>"
  have a: "\<not> list_ex (\<lambda>p. user_id p = ''bob'') (battle_participants ?rm) \<and> host_id (row ?rm) \<noteq> ''bob''"
    by (simp add: alice_def arena_def duel_def)
  have b: "host_id (row ?rm2) = ''alice''"
    by (simp add: arena_def duel_def)
  have c: "presenceEffect (Some ?rm) ''bob'' False None None
     = \<lparr>pr_toasts = (if pr_onLeave (presenceEffect (Some ?rm) ''bob'' False None None)
                      then [KickedFromRoom] else []),
        pr_prevCount = Some 1,
        pr_onLeave = pr_onLeave (presenceEffect (Some ?rm) ''bob'' False None None)\<rparr>"
    by (simp add: presenceEffect_def Let_def)
  from kick_detection [where userId = "''bob''" and rm = ?rm and prevCount = None and cached = None] a
  have "pr_onLeave (presenceEffect (Some ?rm) ''bob'' False None None)" by blast
  moreover from kick_detection [where userId = "''alice''" and rm = ?rm2 and prevCount = None and cached = None
      and isLeaving = False] b
  have "\<not> pr_onLeave (presenceEffect (Some ?rm2) ''alice'' False None None)" by blast
  ultimately show ?thesis using c by simp
qed

text \<open>Claim C9 as stated fails for a client that the stored row names as host: Bob's
  participant row is gone and he never asked to leave, yet his client shows no kicked notice
  and stays in the room.\<close>

theorem host_row_gone_counterexample:
  "presenceEffect (Some \<lparr>row = arena\<lparr>host_id := ''bob''\<rparr>, battle_participants = [alice]\<rparr>)
     ''bob'' False None None
   = \<lparr>pr_toasts = [], pr_prevCount = Some 1, pr_onLeave = False\<rparr>"
  by (simp add: presenceEffect_def arena_def duel_def alice_def)

section \<open>Joining by code\<close>

lemma single_Some_mem: "single xs = Some x \<Longrightarrow> x \<in> set xs"
  by (cases xs rule: single.cases) simp_all

lemma upper_code: "toUpperCase ''ab12cd'' = ''AB12CD''"
  by code_simp

lemma upper_miss: "toUpperCase ''zzzzzz'' = ''ZZZZZZ''"
  by code_simp

text \<open>
  Claim C5, as amended. For an authenticated caller whose select reaches the store:
  when no waiting room has the upper-cased code the join fails with the not-found error;
  when exactly one has it and its participants have reached \<open>max_players\<close> the join fails
  with the room-full error, also for a caller who is already one of them; when the room is
  not full and the caller is already a participant the join returns the room and sends
  nothing; otherwise it sends one insert for the caller and returns the room if the insert
  succeeds. No failure sends a successful request.
\<close>

theorem join_by_code_outcomes:
  "((\<forall>r \<in> set (battle_rooms s). \<not> (room_code r = toUpperCase roomCode \<and> status r = Waiting))
      \<longrightarrow> joinRoomByCodeMutation (Some u) roomCode now True insert_ok s
            = \<lparr>lb_result = Inl RoomNotFoundOrStarted, lb_requests = []\<rparr>)
   \<and> (single (filter (\<lambda>r. room_code r = toUpperCase roomCode \<and> status r = Waiting) (battle_rooms s))
         = Some r
      \<longrightarrow> room_code r = toUpperCase roomCode \<and> status r = Waiting
        \<and> (int (length (participants_of s (room_id r))) \<ge> max_players r
             \<longrightarrow> joinRoomByCodeMutation (Some u) roomCode now True insert_ok s
                   = \<lparr>lb_result = Inl RoomIsFull, lb_requests = []\<rparr>)
        \<and> (int (length (participants_of s (room_id r))) < max_players r
             \<and> list_ex (\<lambda>p. user_id p = auth_id u) (participants_of s (room_id r))
             \<longrightarrow> joinRoomByCodeMutation (Some u) roomCode now True insert_ok s
                   = \<lparr>lb_result = Inr (embed s r), lb_requests = []\<rparr>)
        \<and> (int (length (participants_of s (room_id r))) < max_players r
             \<and> \<not> list_ex (\<lambda>p. user_id p = auth_id u) (participants_of s (room_id r))
             \<longrightarrow> joinRoomByCodeMutation (Some u) roomCode now True True s
                   = \<lparr>lb_result = Inr (embed s r),
                      lb_requests =
                        [(InsertParticipant
                            \<lparr>battle_room_id = room_id r, user_id = auth_id u,
                              username = username_of u, created_at = now\<rparr>, True)]\<rparr>))"
proof (intro conjI impI)
  assume "\<forall>r \<in> set (battle_rooms s). \<not> (room_code r = toUpperCase roomCode \<and> status r = Waiting)"
  then have "filter (\<lambda>r. room_code r = toUpperCase roomCode \<and> status r = Waiting) (battle_rooms s) = []"
    by (simp add: filter_empty_conv)
  then show "joinRoomByCodeMutation (Some u) roomCode now True insert_ok s
            = \<lparr>lb_result = Inl RoomNotFoundOrStarted, lb_requests = []\<rparr>"
    by (simp add: joinRoomByCodeMutation_def)
next
  assume f: "single (filter (\<lambda>r. room_code r = toUpperCase roomCode \<and> status r = Waiting)
               (battle_rooms s)) = Some r"
  from single_Some_mem [OF f] show "room_code r = toUpperCase roomCode" "status r = Waiting"
    by simp_all
  {
    assume "int (length (participants_of s (room_id r))) \<ge> max_players r"
    with f show "joinRoomByCodeMutation (Some u) roomCode now True insert_ok s
                   = \<lparr>lb_result = Inl RoomIsFull, lb_requests = []\<rparr>"
      by (simp add: joinRoomByCodeMutation_def embed_def)
  }
  {
    assume "int (length (participants_of s (room_id r))) < max_players r
             \<and> list_ex (\<lambda>p. user_id p = auth_id u) (participants_of s (room_id r))"
    with f show "joinRoomByCodeMutation (Some u) roomCode now True insert_ok s
                   = \<lparr>lb_result = Inr (embed s r), lb_requests = []\<rparr>"
      by (simp add: joinRoomByCodeMutation_def embed_def)
  }
  {
    assume "int (length (participants_of s (room_id r))) < max_players r
             \<and> \<not> list_ex (\<lambda>p. user_id p = auth_id u) (participants_of s (room_id r))"
    with f show "joinRoomByCodeMutation (Some u) roomCode now True True s
                   = \<lparr>lb_result = Inr (embed s r),
                      lb_requests =
                        [(InsertParticipant
                            \<lparr>battle_room_id = room_id r, user_id = auth_id u,
                              username = username_of u, created_at = now\<rparr>, True)]\<rparr>"
      by (simp add: joinRoomByCodeMutation_def embed_def Let_def)
  }
qed

text \<open>Claim C5 as stated fails: Bob, already a participant of a full one-on-one room,
  joins it again by its code and is told that the room is full.\<close>

text \<open>Bob joins Alice's one-on-one room by its code, typed in lower case; a code that no
  room has is not found.\<close>

theorem join_by_code_outcomes_witness:
  "joinRoomByCodeMutation (Some bob_user) ''ab12cd'' 9000 True True
     \<lparr>battle_rooms = [duel], participant_rows = [alice]\<rparr>
   = \<lparr>lb_result = Inr \<lparr>row = duel, battle_participants = [alice]\<rparr>,
      lb_requests = [(InsertParticipant (bob\<lparr>created_at := 9000\<rparr>), True)]\<rparr>
   \<and> joinRoomByCodeMutation (Some bob_user) ''zzzzzz'' 9000 True True
       \<lparr>battle_rooms = [duel], participant_rows = [alice]\<rparr>
     = \<lparr>lb_result = Inl RoomNotFoundOrStarted, lb_requests = []\<rparr>"
proof -
  let ?s = "\<lparr>battle_rooms = [duel], participant_rows = [alice]\<rparr>"
  have f: "single (filter (\<lambda>r. room_code r = toUpperCase ''ab12cd'' \<and> status r = Waiting)
             (battle_rooms ?s)) = Some duel"
    by (simp add: upper_code) (simp add: duel_def)
  have n: "int (length (participants_of ?s (room_id duel))) < max_players duel
             \<and> \<not> list_ex (\<lambda>p. user_id p = auth_id bob_user) (participants_of ?s (room_id duel))"
    by (simp add: participants_of_def duel_def alice_def bob_user_def)
  have z: "\<forall>r \<in> set (battle_rooms ?s). \<not> (room_code r = toUpperCase ''zzzzzz'' \<and> status r = Waiting)"
    by (simp add: upper_miss) (simp add: duel_def)
  have e: "embed ?s duel = \<lparr>row = duel, battle_participants = [alice]\<rparr>"
    by (simp add: embed_def participants_of_def duel_def alice_def)
  have j: "\<lparr>battle_room_id = room_id duel, user_id = auth_id bob_user,
            username = username_of bob_user, created_at = 9000\<rparr> = bob\<lparr>created_at := 9000\<rparr>"
    by (simp add: duel_def bob_user_def bob_def username_of_def)
  from join_by_code_outcomes [of ?s "''ab12cd''" bob_user 9000 True duel] f n
    join_by_code_outcomes [of ?s "''zzzzzz''" bob_user 9000 True duel] z
  show ?thesis
    unfolding e j by blast
qed

theorem rejoin_full_room_counterexample:
  "joinRoomByCodeMutation (Some bob_user) ''ab12cd'' 9000 True True
     \<lparr>battle_rooms = [duel], participant_rows = [alice, bob]\<rparr>
   = \<lparr>lb_result = Inl RoomIsFull, lb_requests = []\<rparr>"
  by (simp add: joinRoomByCodeMutation_def embed_def participants_of_def upper_code
      duel_def alice_def bob_def bob_user_def)

section \<open>Creating a room\<close>

lemma createRoom_rollback_requests:
  "lb_requests (createRoomMutation (Some u) settings roomCode newId now True False delete_ok)
     = [(InsertRoom
           \<lparr>room_id = newId, room_code = roomCode, battle_type = battleType settings,
             max_players = maxPlayers (battleType settings), status = Waiting,
             time_per_question = timePerQuestion settings,
             total_questions = totalQuestions settings,
             subject = settings_subject settings, host_id = auth_id u,
             host_ping_requested_at = None, last_ping_sender_id = None,
             last_ping_sender_username = None, countdown_initiated_at = None\<rparr>, True),
        (InsertParticipant
           \<lparr>battle_room_id = newId, user_id = auth_id u, username = username_of u,
             created_at = now\<rparr>, False),
        (DeleteRoom newId, delete_ok)]"
  by (simp add: createRoomMutation_def)

lemma insert_then_delete:
  assumes "room_id r = rid"
  shows "battle_rooms (exec (DeleteRoom rid) (exec (InsertRoom r) s))
           = filter (\<lambda>x. room_id x \<noteq> rid) (battle_rooms s)"
    and "participant_rows (exec (DeleteRoom rid) (exec (InsertRoom r) s)) = participant_rows s"
  using assms by simp_all

lemma fresh_insert_then_delete:
  assumes "room_id r = rid" and "\<forall>x \<in> set (battle_rooms s). room_id x \<noteq> rid"
  shows "exec (DeleteRoom rid) (exec (InsertRoom r) s) = s"
proof -
  from assms(2) have "filter (\<lambda>x. room_id x \<noteq> rid) (battle_rooms s) = battle_rooms s"
    by (simp add: filter_id_conv)
  with assms(1) show ?thesis by simp
qed

text \<open>
  Claim C10, as amended. When the room row was inserted and the insert of the creator as
  first participant fails, the operation ends in an error and sends a delete for the new
  room id. If that delete succeeds, no room row with the new id is left, and when the id
  was fresh the store is as it was before; the outcome of the delete is not checked.
  When the insert of the room itself fails, the store is unchanged as well.
\<close>

theorem create_room_rollback:
  "lb_result (createRoomMutation (Some u) settings roomCode newId now True False delete_ok)
     = Inl SupabaseError
   \<and> (\<forall>r \<in> set (battle_rooms
                  (commit (lb_requests
                     (createRoomMutation (Some u) settings roomCode newId now True False True)) s)).
         room_id r \<noteq> newId)
   \<and> participant_rows
        (commit (lb_requests
           (createRoomMutation (Some u) settings roomCode newId now True False True)) s)
       = participant_rows s
   \<and> ((\<forall>r \<in> set (battle_rooms s). room_id r \<noteq> newId)
        \<longrightarrow> commit (lb_requests
               (createRoomMutation (Some u) settings roomCode newId now True False True)) s = s)
   \<and> lb_result (createRoomMutation (Some u) settings roomCode newId now False participant_ok delete_ok)
       = Inl SupabaseError
   \<and> commit (lb_requests
        (createRoomMutation (Some u) settings roomCode newId now False participant_ok delete_ok)) s = s"
proof (intro conjI impI)
  show "lb_result (createRoomMutation (Some u) settings roomCode newId now True False delete_ok)
     = Inl SupabaseError"
    by (simp add: createRoomMutation_def)
  show "\<forall>r \<in> set (battle_rooms
                  (commit (lb_requests
                     (createRoomMutation (Some u) settings roomCode newId now True False True)) s)).
         room_id r \<noteq> newId"
    unfolding createRoom_rollback_requests by (simp add: insert_then_delete)
  show "participant_rows
        (commit (lb_requests
           (createRoomMutation (Some u) settings roomCode newId now True False True)) s)
       = participant_rows s"
    unfolding createRoom_rollback_requests by simp
  show "lb_result (createRoomMutation (Some u) settings roomCode newId now False participant_ok delete_ok)
       = Inl SupabaseError"
    by (simp add: createRoomMutation_def)
  show "commit (lb_requests
        (createRoomMutation (Some u) settings roomCode newId now False participant_ok delete_ok)) s = s"
    by (simp add: createRoomMutation_def)
next
  assume fresh: "\<forall>r \<in> set (battle_rooms s). room_id r \<noteq> newId"
  show "commit (lb_requests
               (createRoomMutation (Some u) settings roomCode newId now True False True)) s = s"
    unfolding createRoom_rollback_requests commit.simps if_True if_False
    by (rule fresh_insert_then_delete [OF _ fresh]) simp
qed

text \<open>Alice creates a one-on-one room in an empty store and the insert of her participant
  row fails: the store is empty again.\<close>

theorem create_room_rollback_witness:
  "commit (lb_requests
     (createRoomMutation (Some alice_user) duel_settings ''AB12CD'' ''r1'' 1000 True False True))
     \<lparr>battle_rooms = [], participant_rows = []\<rparr>
   = \<lparr>battle_rooms = [], participant_rows = []\<rparr>"
proof -
  have "\<forall>r \<in> set (battle_rooms \<lparr>battle_rooms = [], participant_rows = []\<rparr>). room_id r \<noteq> ''r1''"
    by simp
  with create_room_rollback [of alice_user duel_settings "''AB12CD''" "''r1''" 1000 True
      "\<lparr>battle_rooms = [], participant_rows = []\<rparr>" True]
  show ?thesis by blast
qed

text \<open>Claim C10 as stated fails when the roll-back delete fails too: the operation ends in
  an error and the new room row stays in the store without any participant.\<close>

theorem create_room_failed_rollback_counterexample:
  "commit (lb_requests
     (createRoomMutation (Some alice_user) duel_settings ''AB12CD'' ''r1'' 1000 True False False))
     \<lparr>battle_rooms = [], participant_rows = []\<rparr>
   = \<lparr>battle_rooms = [duel], participant_rows = []\<rparr>
   \<and> lb_result
       (createRoomMutation (Some alice_user) duel_settings ''AB12CD'' ''r1'' 1000 True False False)
     = Inl SupabaseError"
  by (simp add: createRoomMutation_def alice_user_def duel_settings_def duel_def maxPlayers_def)

section \<open>Capacity\<close>

lemma max_players_apply_update: "max_players (apply_update u r) = max_players r"
  by (cases u) simp_all

lemma participant_rows_exec_update: "participant_rows (exec (UpdateRoom rid u) s) = participant_rows s"
  by simp

lemma participants_of_update:
  "participants_of (exec (UpdateRoom rid u) s) x = participants_of s x"
  by (simp add: participants_of_def)

lemma room_ids_exec_update:
  "map room_id (battle_rooms (exec (UpdateRoom rid u) s)) = map room_id (battle_rooms s)"
proof -
  have "map room_id (map (\<lambda>r. if room_id r = rid then apply_update u r else r) rs) = map room_id rs" for rs
    by (induction rs) (simp_all add: room_id_apply_update)
  then show ?thesis
    unfolding battle_rooms_exec_update .
qed

lemma within_capacity_iff:
  "within_capacity s \<longleftrightarrow>
     (\<forall>r \<in> set (battle_rooms s). int (length (participants_of s (room_id r))) \<le> max_players r)"
  by (simp add: within_capacity_def list_all_iff)

lemma within_capacity_update:
  assumes "within_capacity s"
  shows "within_capacity (exec (UpdateRoom rid u) s)"
  unfolding within_capacity_iff
proof
  fix r
  assume "r \<in> set (battle_rooms (exec (UpdateRoom rid u) s))"
  then have "r \<in> (\<lambda>x. if room_id x = rid then apply_update u x else x) ` set (battle_rooms s)"
    unfolding battle_rooms_exec_update set_map .
  then obtain x where x: "x \<in> set (battle_rooms s)"
    and r: "r = (if room_id x = rid then apply_update u x else x)"
    by (rule imageE)
  from r have "room_id r = room_id x" "max_players r = max_players x"
    by (simp_all add: room_id_apply_update max_players_apply_update)
  with assms x show "int (length (participants_of (exec (UpdateRoom rid u) s) (room_id r))) \<le> max_players r"
    unfolding participants_of_update by (simp add: within_capacity_iff)
qed

lemma participants_of_delete:
  "length (participants_of (exec (DeleteParticipant rid u) s) x) \<le> length (participants_of s x)"
proof -
  have "length (filter P (filter Q xs)) \<le> length (filter P xs)" for P Q and xs :: "participant list"
    by (induction xs) auto
  then show ?thesis
    by (simp add: participants_of_def)
qed

lemma within_capacity_delete:
  assumes "within_capacity s"
  shows "within_capacity (exec (DeleteParticipant rid u) s)"
  unfolding within_capacity_iff
proof
  fix r
  assume "r \<in> set (battle_rooms (exec (DeleteParticipant rid u) s))"
  then have "r \<in> set (battle_rooms s)" by simp
  with assms have "int (length (participants_of s (room_id r))) \<le> max_players r"
    by (simp add: within_capacity_iff)
  with participants_of_delete [of rid u s "room_id r"]
  show "int (length (participants_of (exec (DeleteParticipant rid u) s) (room_id r))) \<le> max_players r"
    by linarith
qed

lemma participants_of_insert:
  "participants_of (exec (InsertParticipant p) s) x
     = participants_of s x @ (if battle_room_id p = x then [p] else [])"
  by (simp add: participants_of_def)

lemma within_capacity_insert:
  assumes cap: "within_capacity s" and ids: "distinct (map room_id (battle_rooms s))"
    and r: "r \<in> set (battle_rooms s)" and p: "battle_room_id p = room_id r"
    and room: "int (length (participants_of s (room_id r))) < max_players r"
  shows "within_capacity (exec (InsertParticipant p) s)"
  unfolding within_capacity_iff
proof
  fix x
  assume "x \<in> set (battle_rooms (exec (InsertParticipant p) s))"
  then have x: "x \<in> set (battle_rooms s)" by simp
  with cap have le: "int (length (participants_of s (room_id x))) \<le> max_players x"
    by (simp add: within_capacity_iff)
  show "int (length (participants_of (exec (InsertParticipant p) s) (room_id x))) \<le> max_players x"
  proof (cases "room_id x = room_id r")
    case True
    from ids have "inj_on room_id (set (battle_rooms s))"
      by (simp add: distinct_map)
    with True x r have "x = r"
      by (auto dest: inj_onD)
    with room p show ?thesis
      unfolding participants_of_insert by simp
  next
    case False
    with p le show ?thesis
      unfolding participants_of_insert by simp
  qed
qed


text \<open>Apart from a join, no operation of the waiting room adds a row to either table.\<close>

lemma leave_requests_shape:
  assumes "(q, b) \<in> set (lv_requests (leaveRoomMutation room updatedRoom roomId userId d h r))"
  shows "q = DeleteParticipant roomId userId \<or> (\<exists>u. q = UpdateRoom roomId (SetHost u))
         \<or> q = UpdateRoom roomId RevertToWaiting"
proof (cases d)
  case False
  with assms show ?thesis by (simp add: leaveRoomMutation_def)
next
  case True
  have "fst (hostTransfer room roomId userId h) = []
        \<or> (\<exists>u. fst (hostTransfer room roomId userId h) = [(UpdateRoom roomId (SetHost u), h)])"
    by (cases room) (simp_all add: hostTransfer_def Let_def)
  with True assms revertToWaiting_cases [of updatedRoom roomId r] show ?thesis
    by (auto simp: leaveRoomMutation_def)
qed

lemma remove_requests_shape:
  assumes "(q, b) \<in> set (mr_requests
             (removeParticipantMutation room updatedRoom roomId userId target d r))"
  shows "q = DeleteParticipant roomId target \<or> q = UpdateRoom roomId RevertToWaiting"
proof (cases room)
  case None
  with assms show ?thesis by (simp add: removeParticipantMutation_def rejected_def)
next
  case (Some rm)
  with assms revertToWaiting_cases [of updatedRoom roomId r] show ?thesis
    by (auto simp: removeParticipantMutation_def rejected_def split: if_splits)
qed

lemma start_requests_shape:
  "mr_requests (startBattleMutation room roomId userId now ok) = []
   \<or> (mr_requests (startBattleMutation room roomId userId now ok)
         = [(UpdateRoom roomId (InitiateCountdown now), ok)]
       \<and> (\<exists>rm. room = Some rm \<and> status (row rm) = Waiting))"
  by (cases room) (simp_all add: startBattleMutation_def rejected_def)

lemma ping_requests_shape:
  "mr_requests (pingHostMutation room roomId userId now ok) = []
   \<or> (\<exists>n. mr_requests (pingHostMutation room roomId userId now ok)
         = [(UpdateRoom roomId (PingHost now userId n), ok)])"
  by (cases room) (simp_all add: pingHostMutation_def rejected_def Let_def)

lemma join_requests_shape:
  "lb_requests (joinRoomByCodeMutation user roomCode now sel ins s) = []
   \<or> (\<exists>r p. lb_requests (joinRoomByCodeMutation user roomCode now sel ins s)
              = [(InsertParticipant p, ins)]
            \<and> r \<in> set (battle_rooms s) \<and> battle_room_id p = room_id r
            \<and> int (length (participants_of s (room_id r))) < max_players r)"
proof (cases user)
  case None
  then show ?thesis by (simp add: joinRoomByCodeMutation_def)
next
  case (Some u)
  show ?thesis
  proof (cases "single (filter (\<lambda>r. room_code r = toUpperCase roomCode \<and> status r = Waiting)
                  (battle_rooms s))")
    case None
    with Some show ?thesis by (simp add: joinRoomByCodeMutation_def)
  next
    case found: (Some r)
    from single_Some_mem [OF found] have "r \<in> set (battle_rooms s)" by simp
    with Some found show ?thesis
      by (simp add: joinRoomByCodeMutation_def embed_def Let_def not_le) blast
  qed
qed

lemma commit_keeps_capacity:
  assumes "\<forall>(q, b) \<in> set rs. (\<exists>rid u. q = DeleteParticipant rid u) \<or> (\<exists>rid u. q = UpdateRoom rid u)"
    and "within_capacity s"
  shows "within_capacity (commit rs s)
         \<and> map room_id (battle_rooms (commit rs s)) = map room_id (battle_rooms s)"
  using assms
proof (induction rs arbitrary: s)
  case Nil
  then show ?case by simp
next
  case (Cons a rs)
  obtain q b where a: "a = (q, b)" by (cases a)
  from Cons.prems(1) a have q: "(\<exists>rid u. q = DeleteParticipant rid u) \<or> (\<exists>rid u. q = UpdateRoom rid u)"
    and rest: "\<forall>(q, b) \<in> set rs. (\<exists>rid u. q = DeleteParticipant rid u) \<or> (\<exists>rid u. q = UpdateRoom rid u)"
    by auto
  let ?s1 = "if b then exec q s else s"
  from q Cons.prems(2) have cap: "within_capacity ?s1"
    by (auto intro: within_capacity_delete within_capacity_update)
  from q have ids: "map room_id (battle_rooms ?s1) = map room_id (battle_rooms s)"
    by (auto simp: room_ids_exec_update simp del: exec.simps(5))
  from Cons.IH [OF rest cap] ids a show ?case
    by simp
qed


lemma countdown_requests_shape:
  assumes "(q, b) \<in> set (cd_requests (countdownEffect room roomId now ok))
           \<or> (q, b) \<in> set (cd_requests (countdownTick prev cached roomId ok))"
  shows "q = UpdateRoom roomId SetInProgress"
  using assms countdownEffect_requests [of room roomId now ok]
    countdownTick_requests [of prev cached roomId ok]
  by auto

lemma room_updates_shape:
  assumes "\<forall>user code now sel ins. operation \<noteq> Join user code now sel ins"
    and "(q, b) \<in> set (requests_of operation s)"
  shows "(\<exists>rid u. q = DeleteParticipant rid u) \<or> (\<exists>rid u. q = UpdateRoom rid u)"
proof (cases operation)
  case (Join user code now sel ins)
  with assms(1) show ?thesis by blast
next
  case (Leave room updatedRoom roomId userId d h r)
  with assms(2) leave_requests_shape [of q b room updatedRoom roomId userId d h r]
  show ?thesis by auto
next
  case (Remove room updatedRoom roomId userId target d r)
  with assms(2) remove_requests_shape [of q b room updatedRoom roomId userId target d r]
  show ?thesis by auto
next
  case (Countdown room roomId now ok)
  with assms(2) countdown_requests_shape [of q b room roomId now ok]
  show ?thesis by auto
next
  case (Tick prev cached roomId ok)
  with assms(2) countdown_requests_shape [of q b _ roomId _ ok prev cached]
  show ?thesis by auto
next
  case (Start room roomId userId now ok)
  with assms(2) start_requests_shape [of room roomId userId now ok]
  show ?thesis by auto
next
  case (Ping room roomId userId now ok)
  with assms(2) ping_requests_shape [of room roomId userId now ok]
  show ?thesis by auto
qed

lemma step_keeps_capacity:
  assumes "distinct (map room_id (battle_rooms s))" and "within_capacity s"
  shows "within_capacity (step operation s)
         \<and> map room_id (battle_rooms (step operation s)) = map room_id (battle_rooms s)"
proof (cases "\<exists>user code now sel ins. operation = Join user code now sel ins")
  case False
  then have "\<forall>(q, b) \<in> set (requests_of operation s).
               (\<exists>rid u. q = DeleteParticipant rid u) \<or> (\<exists>rid u. q = UpdateRoom rid u)"
    using room_updates_shape [of operation _ _ s] by blast
  from commit_keeps_capacity [OF this assms(2)] show ?thesis
    by (simp add: step_def)
next
  case True
  then obtain user code now sel ins where j: "operation = Join user code now sel ins"
    by blast
  from join_requests_shape [of user code now sel ins s] show ?thesis
  proof
    assume "lb_requests (joinRoomByCodeMutation user code now sel ins s) = []"
    with j assms(2) show ?thesis by (simp add: step_def)
  next
    assume "\<exists>r p. lb_requests (joinRoomByCodeMutation user code now sel ins s)
              = [(InsertParticipant p, ins)]
            \<and> r \<in> set (battle_rooms s) \<and> battle_room_id p = room_id r
            \<and> int (length (participants_of s (room_id r))) < max_players r"
    then obtain r p where reqs: "lb_requests (joinRoomByCodeMutation user code now sel ins s)
              = [(InsertParticipant p, ins)]"
      and r: "r \<in> set (battle_rooms s)" and p: "battle_room_id p = room_id r"
      and room: "int (length (participants_of s (room_id r))) < max_players r"
      by blast
    have st: "step operation s = (if ins then exec (InsertParticipant p) s else s)"
      using j reqs by (simp add: step_def)
    show ?thesis
    proof (cases ins)
      case True
      with st within_capacity_insert [OF assms(2,1) r p room] show ?thesis by simp
    next
      case False
      with st assms(2) show ?thesis by simp
    qed
  qed
qed

lemma run_keeps_capacity:
  assumes "distinct (map room_id (battle_rooms s))" and "within_capacity s"
  shows "within_capacity (run ops s)"
  using assms
proof (induction ops arbitrary: s)
  case Nil
  then show ?case by simp
next
  case (Cons operation ops)
  from step_keeps_capacity [OF Cons.prems, of operation] Cons.prems(1)
  have "distinct (map room_id (battle_rooms (step operation s)))"
    and "within_capacity (step operation s)"
    by simp_all
  from Cons.IH [OF this] show ?case by simp
qed

text \<open>Requests of overlapping operations.\<close>

lemma within_capacity_insert_free:
  assumes cap: "within_capacity s"
    and free: "list_all (\<lambda>r. room_id r = battle_room_id p
                    \<longrightarrow> int (length (participants_of s (room_id r))) < max_players r) (battle_rooms s)"
  shows "within_capacity (exec (InsertParticipant p) s)"
  unfolding within_capacity_iff
proof
  fix x
  assume "x \<in> set (battle_rooms (exec (InsertParticipant p) s))"
  then have x: "x \<in> set (battle_rooms s)" by simp
  with cap have le: "int (length (participants_of s (room_id x))) \<le> max_players x"
    by (simp add: within_capacity_iff)
  from free x have lt: "room_id x = battle_room_id p
      \<longrightarrow> int (length (participants_of s (room_id x))) < max_players x"
    by (simp add: list_all_iff)
  show "int (length (participants_of (exec (InsertParticipant p) s) (room_id x))) \<le> max_players x"
  proof (cases "battle_room_id p = room_id x")
    case True
    with lt show ?thesis unfolding participants_of_insert by simp
  next
    case False
    with le show ?thesis unfolding participants_of_insert by simp
  qed
qed

lemma requests_kind:
  assumes "(q, b) \<in> set (requests_of operation s)"
  shows "(\<exists>p. q = InsertParticipant p) \<or> (\<exists>rid u. q = DeleteParticipant rid u)
         \<or> (\<exists>rid u. q = UpdateRoom rid u)"
proof (cases "\<exists>user code now sel ins. operation = Join user code now sel ins")
  case False
  with assms room_updates_shape [of operation q b s] show ?thesis by blast
next
  case True
  then obtain user code now sel ins where "operation = Join user code now sel ins" by blast
  with assms join_requests_shape [of user code now sel ins s] show ?thesis by auto
qed

lemma exec_keeps_capacity:
  assumes "within_capacity s"
    and "(\<exists>rid u. q = DeleteParticipant rid u) \<or> (\<exists>rid u. q = UpdateRoom rid u)
         \<or> (\<exists>p. q = InsertParticipant p
               \<and> list_all (\<lambda>r. room_id r = battle_room_id p
                    \<longrightarrow> int (length (participants_of s (room_id r))) < max_players r) (battle_rooms s))"
  shows "within_capacity (exec q s)"
  using assms
  by (auto intro: within_capacity_delete within_capacity_update within_capacity_insert_free
      simp del: exec.simps)

lemma occur_keeps_capacity:
  assumes kinds: "\<forall>rs \<in> set (in_flight c). \<forall>(q, b) \<in> set rs.
             (\<exists>p. q = InsertParticipant p) \<or> (\<exists>rid u. q = DeleteParticipant rid u)
             \<or> (\<exists>rid u. q = UpdateRoom rid u)"
    and cap: "within_capacity (stored c)"
    and free: "free_place e c"
  shows "(\<forall>rs \<in> set (in_flight (occur e c)). \<forall>(q, b) \<in> set rs.
             (\<exists>p. q = InsertParticipant p) \<or> (\<exists>rid u. q = DeleteParticipant rid u)
             \<or> (\<exists>rid u. q = UpdateRoom rid u))
         \<and> within_capacity (stored (occur e c))"
proof (cases e)
  case (Begin operation)
  have "\<forall>(q, b) \<in> set (requests_of operation (stored c)).
             (\<exists>p. q = InsertParticipant p) \<or> (\<exists>rid u. q = DeleteParticipant rid u)
             \<or> (\<exists>rid u. q = UpdateRoom rid u)"
    using requests_kind [of _ _ operation "stored c"] by blast
  with Begin kinds cap show ?thesis
    by (simp add: ball_Un)
next
  case (Land i)
  show ?thesis
  proof (cases "i < length (in_flight c)")
    case False
    with Land kinds cap show ?thesis by simp
  next
    case i: True
    show ?thesis
    proof (cases "in_flight c ! i")
      case Nil
      with Land i kinds cap show ?thesis by simp
    next
      case (Cons a rest)
      obtain q ok where a: "a = (q, ok)" by (cases a)
      from i have mem: "in_flight c ! i \<in> set (in_flight c)" by simp
      with kinds Cons a have q: "(\<exists>p. q = InsertParticipant p) \<or> (\<exists>rid u. q = DeleteParticipant rid u)
             \<or> (\<exists>rid u. q = UpdateRoom rid u)"
        and rest: "\<forall>(q, b) \<in> set rest.
             (\<exists>p. q = InsertParticipant p) \<or> (\<exists>rid u. q = DeleteParticipant rid u)
             \<or> (\<exists>rid u. q = UpdateRoom rid u)"
        by auto
      have occ: "occur e c = \<lparr>stored = (if ok then exec q (stored c) else stored c),
                               in_flight = (in_flight c)[i := rest]\<rparr>"
        using Land i Cons a by simp
      have k': "\<forall>rs \<in> set ((in_flight c)[i := rest]). \<forall>(q, b) \<in> set rs.
             (\<exists>p. q = InsertParticipant p) \<or> (\<exists>rid u. q = DeleteParticipant rid u)
             \<or> (\<exists>rid u. q = UpdateRoom rid u)"
      proof
        fix rs assume "rs \<in> set ((in_flight c)[i := rest])"
        then have "rs = rest \<or> rs \<in> set (in_flight c)"
          using set_update_subset_insert [of "in_flight c" i rest] by auto
        with rest kinds show "\<forall>(q, b) \<in> set rs.
             (\<exists>p. q = InsertParticipant p) \<or> (\<exists>rid u. q = DeleteParticipant rid u)
             \<or> (\<exists>rid u. q = UpdateRoom rid u)"
          by blast
      qed
      have "within_capacity (if ok then exec q (stored c) else stored c)"
      proof (cases ok)
        case False
        with cap show ?thesis by simp
      next
        case True
        have "(\<exists>rid u. q = DeleteParticipant rid u) \<or> (\<exists>rid u. q = UpdateRoom rid u)
         \<or> (\<exists>p. q = InsertParticipant p
               \<and> list_all (\<lambda>r. room_id r = battle_room_id p
                    \<longrightarrow> int (length (participants_of (stored c) (room_id r))) < max_players r)
                    (battle_rooms (stored c)))"
        proof (cases "\<exists>p. q = InsertParticipant p")
          case False
          with q show ?thesis by blast
        next
          case True
          then obtain p where p: "q = InsertParticipant p" by blast
          from free Land i Cons a p \<open>ok\<close> show ?thesis by simp
        qed
        from exec_keeps_capacity [OF cap this] True show ?thesis by simp
      qed
      with k' occ show ?thesis by simp
    qed
  qed
qed

lemma interleaving_keeps_capacity:
  assumes "\<forall>rs \<in> set (in_flight c). \<forall>(q, b) \<in> set rs.
             (\<exists>p. q = InsertParticipant p) \<or> (\<exists>rid u. q = DeleteParticipant rid u)
             \<or> (\<exists>rid u. q = UpdateRoom rid u)"
    and "within_capacity (stored c)"
    and "free_places es c"
  shows "within_capacity (stored (interleaving es c))"
  using assms
proof (induction es arbitrary: c)
  case Nil
  then show ?case by simp
next
  case (Cons e es)
  from Cons.prems(3) have f: "free_place e c" and fs: "free_places es (occur e c)"
    by simp_all
  from occur_keeps_capacity [OF Cons.prems(1,2) f]
  have "\<forall>rs \<in> set (in_flight (occur e c)). \<forall>(q, b) \<in> set rs.
             (\<exists>p. q = InsertParticipant p) \<or> (\<exists>rid u. q = DeleteParticipant rid u)
             \<or> (\<exists>rid u. q = UpdateRoom rid u)"
    and "within_capacity (stored (occur e c))"
    by blast+
  from Cons.IH [OF this fs] show ?case by simp
qed


lemma requests_length: "length (requests_of operation s) \<le> 3"
proof (cases operation)
  case (Join user code now sel ins)
  with join_requests_shape [of user code now sel ins s] show ?thesis by auto
next
  case (Leave room updatedRoom roomId userId d h r)
  have "length (fst (hostTransfer room roomId userId h)) \<le> 1"
    by (cases room) (simp_all add: hostTransfer_def Let_def)
  moreover have "length (revertToWaiting updatedRoom roomId r) \<le> 1"
    using revertToWaiting_cases [of updatedRoom roomId r] by auto
  ultimately show ?thesis
    using Leave by (simp add: leaveRoomMutation_def)
next
  case (Remove room updatedRoom roomId userId target d r)
  have "length (revertToWaiting updatedRoom roomId r) \<le> 1"
    using revertToWaiting_cases [of updatedRoom roomId r] by auto
  then show ?thesis
    using Remove by (cases room) (simp_all add: removeParticipantMutation_def rejected_def)
next
  case (Countdown room roomId now ok)
  with countdownEffect_requests [of room roomId now ok] show ?thesis by auto
next
  case (Tick prev cached roomId ok)
  with countdownTick_requests [of prev cached roomId ok] show ?thesis by auto
next
  case (Start room roomId userId now ok)
  with start_requests_shape [of room roomId userId now ok] show ?thesis by auto
next
  case (Ping room roomId userId now ok)
  with ping_requests_shape [of room roomId userId now ok] show ?thesis by auto
qed

lemma lands:
  assumes "length rs \<le> n"
  shows "interleaving (replicate n (Land (length fl)) @ es) \<lparr>stored = s, in_flight = fl @ [rs]\<rparr>
           = interleaving es \<lparr>stored = commit rs s, in_flight = fl @ [[]]\<rparr>"
  using assms
proof (induction n arbitrary: rs s)
  case 0
  then show ?case by simp
next
  case (Suc n)
  show ?case
  proof (cases rs)
    case Nil
    with Suc.IH [of "[]" s] show ?thesis by simp
  next
    case (Cons a rest)
    obtain q ok where a: "a = (q, ok)" by (cases a)
    from Suc.prems Cons have "length rest \<le> n" by simp
    from Suc.IH [OF this, of "if ok then exec q s else s"] Cons a show ?thesis
      by (cases ok) simp_all
  qed
qed

lemma lands3:
  assumes "length rs \<le> 3"
  shows "interleaving (Land (length fl) # Land (length fl) # Land (length fl) # es)
           \<lparr>stored = s, in_flight = fl @ [rs]\<rparr>
         = interleaving es \<lparr>stored = commit rs s, in_flight = fl @ [[]]\<rparr>"
proof -
  have "Land (length fl) # Land (length fl) # Land (length fl) # es
          = replicate (Suc (Suc (Suc 0))) (Land (length fl)) @ es"
    by simp
  with lands [of rs "Suc (Suc (Suc 0))" fl es s] assms show ?thesis
    by (simp only: numeral_3_eq_3)
qed

lemma serial_is_run:
  "stored (interleaving (serial (length fl) ops) \<lparr>stored = s, in_flight = fl\<rparr>) = run ops s"
proof (induction ops arbitrary: s fl)
  case Nil
  show ?case by simp
next
  case (Cons operation ops)
  have "interleaving (serial (length fl) (operation # ops)) \<lparr>stored = s, in_flight = fl\<rparr>
          = interleaving (Land (length fl) # Land (length fl) # Land (length fl)
                            # serial (Suc (length fl)) ops)
              \<lparr>stored = s, in_flight = fl @ [requests_of operation s]\<rparr>"
    by (simp only: serial.simps interleaving.simps occur.simps system.select_convs)
  also have "\<dots> = interleaving (serial (Suc (length fl)) ops)
                    \<lparr>stored = commit (requests_of operation s) s, in_flight = fl @ [[]]\<rparr>"
    by (rule lands3 [OF requests_length])
  finally show ?case
    using Cons.IH [of "fl @ [[]]" "commit (requests_of operation s) s"]
    by (simp add: step_def)
qed

lemma join_bob: "lb_requests (joinRoomByCodeMutation (Some bob_user) ''ab12cd'' 9000 True True
     \<lparr>battle_rooms = [duel], participant_rows = [alice]\<rparr>)
   = [(InsertParticipant (bob\<lparr>created_at := 9000\<rparr>), True)]"
  by (simp add: joinRoomByCodeMutation_def embed_def participants_of_def upper_code
      duel_def alice_def bob_def bob_user_def username_of_def)

lemma join_carol: "lb_requests (joinRoomByCodeMutation (Some carol_user) ''ab12cd'' 9500 True True
     \<lparr>battle_rooms = [duel], participant_rows = [alice]\<rparr>)
   = [(InsertParticipant (carol\<lparr>created_at := 9500\<rparr>), True)]"
  by (simp add: joinRoomByCodeMutation_def embed_def participants_of_def upper_code
      duel_def alice_def carol_def carol_user_def username_of_def)

lemma leave_alice:
  "lv_requests (leaveRoomMutation (Some \<lparr>row = duel, battle_participants = [alice]\<rparr>) None
      ''r1'' ''alice'' True True True)
   = [(DeleteParticipant ''r1'' ''alice'', True)]"
  by (simp add: leaveRoomMutation_def hostTransfer_def remainingParticipants_def revertToWaiting_def
      duel_def alice_def)

text \<open>
  Claim C2, as amended. Along every interleaving of the requests of joins, leaves, removals
  and the other writes of the waiting room, started from a store in which every room holds
  at most \<open>max_players\<close> participants, every room still does, provided that each insert of
  a join reaches the store while the room has fewer than \<open>max_players\<close> participants. This
  is so whenever the operations run one at a time on a store with unique room ids, which
  is one of the interleavings. A join whose select finds the room with \<open>max_players\<close>
  participants or more fails with the room-full error and sends no insert. The test is
  made on what the select returned and the insert is sent without any condition.
\<close>

theorem capacity_respected:
  "(within_capacity s \<and> free_places es \<lparr>stored = s, in_flight = []\<rparr>
      \<longrightarrow> within_capacity (stored (interleaving es \<lparr>stored = s, in_flight = []\<rparr>)))
   \<and> (distinct (map room_id (battle_rooms s)) \<and> within_capacity s
      \<longrightarrow> within_capacity (run ops s)
          \<and> stored (interleaving (serial 0 ops) \<lparr>stored = s, in_flight = []\<rparr>) = run ops s)
   \<and> (single (filter (\<lambda>r. room_code r = toUpperCase roomCode \<and> status r = Waiting) (battle_rooms s))
         = Some r
       \<and> int (length (participants_of s (room_id r))) \<ge> max_players r
      \<longrightarrow> joinRoomByCodeMutation (Some u) roomCode now True insert_ok s
            = \<lparr>lb_result = Inl RoomIsFull, lb_requests = []\<rparr>
          \<and> step (Join (Some u) roomCode now True insert_ok) s = s)"
proof (intro conjI impI)
  assume "within_capacity s \<and> free_places es \<lparr>stored = s, in_flight = []\<rparr>"
  then show "within_capacity (stored (interleaving es \<lparr>stored = s, in_flight = []\<rparr>))"
    by (intro interleaving_keeps_capacity) simp_all
next
  assume "distinct (map room_id (battle_rooms s)) \<and> within_capacity s"
  then show "within_capacity (run ops s)"
    using run_keeps_capacity by blast
next
  show "stored (interleaving (serial 0 ops) \<lparr>stored = s, in_flight = []\<rparr>) = run ops s"
    using serial_is_run [of "[]" ops s] by simp
next
  assume a: "single (filter (\<lambda>r. room_code r = toUpperCase roomCode \<and> status r = Waiting) (battle_rooms s))
         = Some r
       \<and> int (length (participants_of s (room_id r))) \<ge> max_players r"
  then show full: "joinRoomByCodeMutation (Some u) roomCode now True insert_ok s
            = \<lparr>lb_result = Inl RoomIsFull, lb_requests = []\<rparr>"
    by (simp add: joinRoomByCodeMutation_def embed_def)
  then show "step (Join (Some u) roomCode now True insert_ok) s = s"
    by (simp add: step_def)
qed

text \<open>Bob's join overlaps Alice's leave and his insert lands after her delete; one at a
  time, Bob joins, Carol is turned away and Alice leaves.\<close>

theorem capacity_respected_witness:
  "within_capacity
     (stored
        (interleaving
           [Begin (Join (Some bob_user) ''ab12cd'' 9000 True True),
            Begin (Leave (Some \<lparr>row = duel, battle_participants = [alice]\<rparr>) None
                     ''r1'' ''alice'' True True True),
            Land 1, Land 0]
           \<lparr>stored = \<lparr>battle_rooms = [duel], participant_rows = [alice]\<rparr>, in_flight = []\<rparr>))
   \<and> within_capacity
       (run [Join (Some bob_user) ''ab12cd'' 9000 True True,
             Join (Some carol_user) ''ab12cd'' 9500 True True,
             Leave (Some \<lparr>row = duel, battle_participants = [alice, bob]\<rparr>) None
               ''r1'' ''alice'' True True True]
          \<lparr>battle_rooms = [duel], participant_rows = [alice]\<rparr>)
   \<and> joinRoomByCodeMutation (Some carol_user) ''ab12cd'' 9500 True True
       \<lparr>battle_rooms = [duel], participant_rows = [alice, bob]\<rparr>
     = \<lparr>lb_result = Inl RoomIsFull, lb_requests = []\<rparr>"
proof -
  let ?s0 = "\<lparr>battle_rooms = [duel], participant_rows = [alice]\<rparr>"
  let ?s1 = "\<lparr>battle_rooms = [duel], participant_rows = [alice, bob]\<rparr>"
  let ?es = "[Begin (Join (Some bob_user) ''ab12cd'' 9000 True True),
            Begin (Leave (Some \<lparr>row = duel, battle_participants = [alice]\<rparr>) None
                     ''r1'' ''alice'' True True True),
            Land 1, Land 0]"
  have cap: "within_capacity ?s0"
    by (simp add: within_capacity_def participants_of_def duel_def alice_def)
  have free: "free_places ?es \<lparr>stored = ?s0, in_flight = []\<rparr>"
    by (simp add: join_bob leave_alice) (simp add: participants_of_def duel_def alice_def bob_def)
  have ids: "distinct (map room_id (battle_rooms ?s0))"
    by simp
  have b: "single (filter (\<lambda>r. room_code r = toUpperCase ''ab12cd'' \<and> status r = Waiting)
             (battle_rooms ?s1)) = Some duel
           \<and> int (length (participants_of ?s1 (room_id duel))) \<ge> max_players duel"
    by (simp add: upper_code participants_of_def alice_def bob_def) (simp add: duel_def)
  from capacity_respected [of ?s0 ?es _ "''ab12cd''" duel] cap free ids
    capacity_respected [of ?s1 ?es _ "''ab12cd''" duel] b
  show ?thesis by blast
qed

text \<open>Claim C2 as stated fails for two joins that overlap: the selects of Bob and Carol are
  both served while Alice is alone in her one-on-one room, both pass the test, and both
  inserts land: three participants in a room for two.\<close>

theorem overlapping_joins_counterexample:
  "stored
     (interleaving
        [Begin (Join (Some bob_user) ''ab12cd'' 9000 True True),
         Begin (Join (Some carol_user) ''ab12cd'' 9500 True True),
         Land 0, Land 1]
        \<lparr>stored = \<lparr>battle_rooms = [duel], participant_rows = [alice]\<rparr>, in_flight = []\<rparr>)
   = \<lparr>battle_rooms = [duel],
      participant_rows = [alice, bob\<lparr>created_at := 9000\<rparr>, carol\<lparr>created_at := 9500\<rparr>]\<rparr>
   \<and> \<not> within_capacity
         \<lparr>battle_rooms = [duel],
           participant_rows = [alice, bob\<lparr>created_at := 9000\<rparr>, carol\<lparr>created_at := 9500\<rparr>]\<rparr>"
proof
  show "stored
     (interleaving
        [Begin (Join (Some bob_user) ''ab12cd'' 9000 True True),
         Begin (Join (Some carol_user) ''ab12cd'' 9500 True True),
         Land 0, Land 1]
        \<lparr>stored = \<lparr>battle_rooms = [duel], participant_rows = [alice]\<rparr>, in_flight = []\<rparr>)
   = \<lparr>battle_rooms = [duel],
      participant_rows = [alice, bob\<lparr>created_at := 9000\<rparr>, carol\<lparr>created_at := 9500\<rparr>]\<rparr>"
    by (simp add: join_bob join_carol)
  show "\<not> within_capacity
         \<lparr>battle_rooms = [duel],
           participant_rows = [alice, bob\<lparr>created_at := 9000\<rparr>, carol\<lparr>created_at := 9500\<rparr>]\<rparr>"
    by (simp add: within_capacity_def participants_of_def duel_def alice_def bob_def carol_def)
qed


section \<open>The countdown start and the status\<close>











end
